theory Spec2Isabelle
  imports Main
begin

section \<open>Errors\<close>

text \<open>
  Go errors are values. Each constructor stands for one family of error values the client
  can return: the ones produced by the libraries it calls, and the two shapes built by
  \<^verbatim>\<open>fmt.Errorf\<close> in \<^verbatim>\<open>client.go\<close> (a prefix followed by
  \<^verbatim>\<open>%v\<close> of an error, or by \<^verbatim>\<open>%d\<close> of a status code).
\<close>

datatype error =
    TransportError string
  | UrlError string
  | MethodError string
  | ReadError string
  | InvalidCharacter char string
  | SyntaxError string
  | PhasePanic
  | UnexpectedEOF
  | EOF
  | UnmarshalTypeError string string
  | ErrRequired
  | ErrLength nat nat
  | Errorf_v string error
  | Errorf_d string int

section \<open>Bytes and UTF-8 (package unicode/utf8)\<close>

text \<open>A Go string is a sequence of bytes; so is a HOL \<^typ>\<open>string\<close>.\<close>

definition byte :: "char \<Rightarrow> nat" where
  "byte c = of_char c"

definition RuneError :: nat where
  "RuneError = 0xFFFD"

text \<open>
  \<^verbatim>\<open>utf8.DecodeRune\<close>: the rune at the front of the bytes and its width; an
  ill-formed or truncated encoding gives \<open>(RuneError, 1)\<close>, no bytes give \<open>(RuneError, 0)\<close>.
  The masks of the Go code are written as \<open>mod\<close>, the shifts as multiplications.
\<close>

fun utf8_DecodeRune :: "string \<Rightarrow> nat \<times> nat" where
  "utf8_DecodeRune [] = (RuneError, 0)"
| "utf8_DecodeRune (c0 # p) =
    (let p0 = byte c0 in
     if p0 < 0x80 then (p0, 1)
     else if p0 < 0xC2 \<or> 0xF4 < p0 then (RuneError, 1)
     else
       let sz = (if p0 < 0xE0 then 2 else if p0 < 0xF0 then 3 else 4 :: nat);
           lo = (if p0 = 0xE0 then 0xA0 else if p0 = 0xF0 then 0x90 else 0x80);
           hi = (if p0 = 0xED then 0x9F else if p0 = 0xF4 then 0x8F else 0xBF)
       in
       if length p + 1 < sz then (RuneError, 1)
       else
         let b1 = byte (p ! 0) in
         if b1 < lo \<or> hi < b1 then (RuneError, 1)
         else if sz \<le> 2 then ((p0 mod 0x20) * 0x40 + b1 mod 0x40, 2)
         else
           let b2 = byte (p ! 1) in
           if b2 < 0x80 \<or> 0xBF < b2 then (RuneError, 1)
           else if sz \<le> 3 then
             ((p0 mod 0x10) * 0x1000 + (b1 mod 0x40) * 0x40 + b2 mod 0x40, 3)
           else
             let b3 = byte (p ! 2) in
             if b3 < 0x80 \<or> 0xBF < b3 then (RuneError, 1)
             else ((p0 mod 8) * 0x40000 + (b1 mod 0x40) * 0x1000
                     + (b2 mod 0x40) * 0x40 + b3 mod 0x40, 4))"

text \<open>
  \<^verbatim>\<open>utf8.EncodeRune\<close>: surrogates and values beyond U+10FFFF are written as
  U+FFFD.
\<close>

definition utf8_EncodeRune :: "nat \<Rightarrow> string" where
  "utf8_EncodeRune r =
    (if r \<le> 0x7F then [char_of r]
     else if r \<le> 0x7FF then [char_of (0xC0 + r div 0x40), char_of (0x80 + r mod 0x40)]
     else
       let r' = (if 0x10FFFF < r \<or> (0xD800 \<le> r \<and> r \<le> 0xDFFF) then RuneError else r) in
       if r' \<le> 0xFFFF then
         [char_of (0xE0 + r' div 0x1000), char_of (0x80 + (r' div 0x40) mod 0x40),
          char_of (0x80 + r' mod 0x40)]
       else
         [char_of (0xF0 + r' div 0x40000), char_of (0x80 + (r' div 0x1000) mod 0x40),
          char_of (0x80 + (r' div 0x40) mod 0x40), char_of (0x80 + r' mod 0x40)])"

text \<open>\<^verbatim>\<open>utf8.ValidString\<close>: no position decodes to an encoding error.\<close>

function utf8_ValidString :: "string \<Rightarrow> bool" where
  "utf8_ValidString [] = True"
| "utf8_ValidString (c # cs) =
    (case utf8_DecodeRune (c # cs) of
       (r, n) \<Rightarrow>
         \<not> (r = RuneError \<and> n = 1) \<and> utf8_ValidString (drop (n - 1) cs))"
  by pat_completeness auto
termination
  by (relation "measure length") auto

section \<open>JSON encoding (package encoding/json, Marshal)\<close>

definition backslash :: char where
  "backslash = CHR 0x5C"

definition dquote :: char where
  "dquote = CHR 0x22"

definition hex :: "nat \<Rightarrow> char" where
  "hex n = ''0123456789abcdef'' ! (n mod 16)"

text \<open>
  \<^verbatim>\<open>htmlSafeSet\<close>: the ASCII bytes \<^verbatim>\<open>Marshal\<close> copies unchanged (it
  escapes HTML characters).
\<close>

definition htmlSafeSet :: "char \<Rightarrow> bool" where
  "htmlSafeSet c =
    (0x20 \<le> byte c \<and> byte c < 0x80 \<and> c \<noteq> dquote \<and> c \<noteq> backslash
       \<and> c \<noteq> CHR ''<'' \<and> c \<noteq> CHR ''>'' \<and> c \<noteq> CHR ''&'')"

text \<open>The escape written for an ASCII byte outside \<^const>\<open>htmlSafeSet\<close>.\<close>

definition escapeByte :: "char \<Rightarrow> string" where
  "escapeByte b =
    (if b = backslash \<or> b = dquote then [backslash, b]
     else if b = CHR 0x08 then [backslash, CHR ''b'']
     else if b = CHR 0x0C then [backslash, CHR ''f'']
     else if b = CHR 0x0A then [backslash, CHR ''n'']
     else if b = CHR 0x0D then [backslash, CHR ''r'']
     else if b = CHR 0x09 then [backslash, CHR ''t'']
     else [backslash, CHR ''u'', CHR ''0'', CHR ''0'', hex (byte b div 16), hex (byte b mod 16)])"

text \<open>
  The loop of \<^verbatim>\<open>appendString\<close>, without the surrounding quotes: ASCII is copied or
  escaped byte by byte; an ill-formed byte becomes the escape of U+FFFD (six
  characters); U+2028 and U+2029 are escaped; any other rune is copied.
\<close>

function appendString_loop :: "string \<Rightarrow> string" where
  "appendString_loop [] = []"
| "appendString_loop (c # cs) =
    (if byte c < 0x80 then
       (if htmlSafeSet c then c # appendString_loop cs
        else escapeByte c @ appendString_loop cs)
     else
       (case utf8_DecodeRune (c # cs) of
          (r, n) \<Rightarrow>
            if r = RuneError \<and> n = 1 then
              [backslash, CHR ''u'', CHR ''f'', CHR ''f'', CHR ''f'', CHR ''d'']
                @ appendString_loop cs
            else if r = 0x2028 \<or> r = 0x2029 then
              [backslash, CHR ''u'', CHR ''2'', CHR ''0'', CHR ''2'', hex (r mod 16)]
                @ appendString_loop (drop (n - 1) cs)
            else c # take (n - 1) cs @ appendString_loop (drop (n - 1) cs)))"
  by pat_completeness auto
termination
  by (relation "measure length") auto

definition appendString :: "string \<Rightarrow> string" where
  "appendString src = dquote # appendString_loop src @ [dquote]"

record Topic =
  Name :: string
  Type :: string

record Subscription =
  SubName :: string
  SubType :: string

record Message =
  Data :: string

text \<open>
  \<^verbatim>\<open>json.Marshal\<close> at the three struct types of the client. The fields are
  strings, so no value makes it fail; the result keeps the type of the Go function.
\<close>

definition json_Marshal_Topic :: "Topic \<Rightarrow> error + string" where
  "json_Marshal_Topic t =
    Inr (''{\"name\":'' @ appendString (Name t) @ '',\"type\":'' @ appendString (Type t) @ ''}'')"

definition json_Marshal_Subscription :: "Subscription \<Rightarrow> error + string" where
  "json_Marshal_Subscription s =
    Inr (''{\"name\":'' @ appendString (SubName s) @ '',\"type\":''
           @ appendString (SubType s) @ ''}'')"

definition json_Marshal_Message :: "Message \<Rightarrow> error + string" where
  "json_Marshal_Message m = Inr (''{\"data\":'' @ appendString (Data m) @ ''}'')"

section \<open>HTTP (package net/http)\<close>

record request =
  Method :: string
  URL :: string
  Header :: "string \<rightharpoonup> string list"
  ReqBody :: "string option"

text \<open>
  A response: its status code, the bytes its body delivers, and the error that ends the
  body (\<open>None\<close> for a clean end of stream).
\<close>

record response =
  StatusCode :: int
  Body :: string
  BodyErr :: "string option"

text \<open>
  The HTTP client is the environment: given the requests handed to it so far and the
  request at hand, it answers with a transport error or a response. A request counts as
  issued when it is handed to the client's \<^verbatim>\<open>Do\<close>; the requests issued are
  threaded through every operation as a log.
\<close>

type_synonym httpClient = "request list \<Rightarrow> request \<Rightarrow> error + response"

record Client =
  BaseURL :: string
  HttpClient :: httpClient

text \<open>Token bytes of RFC 7230 (\<^verbatim>\<open>validHeaderFieldByte\<close>, \<^verbatim>\<open>isTokenRune\<close>).\<close>

definition isLower :: "char \<Rightarrow> bool" where
  "isLower c = (0x61 \<le> byte c \<and> byte c \<le> 0x7A)"

definition isUpper :: "char \<Rightarrow> bool" where
  "isUpper c = (0x41 \<le> byte c \<and> byte c \<le> 0x5A)"

definition isDigit :: "char \<Rightarrow> bool" where
  "isDigit c = (0x30 \<le> byte c \<and> byte c \<le> 0x39)"

definition isToken :: "char \<Rightarrow> bool" where
  "isToken c =
    (isLower c \<or> isUpper c \<or> isDigit c \<or> c \<in> set ''!#$%&*+-.^_`|~'' \<or> c = CHR 0x27)"

fun canonical_loop :: "bool \<Rightarrow> string \<Rightarrow> string" where
  "canonical_loop upper [] = []"
| "canonical_loop upper (c # cs) =
    (let c' = (if upper \<and> isLower c then char_of (byte c - 0x20)
               else if \<not> upper \<and> isUpper c then char_of (byte c + 0x20)
               else c)
     in c' # canonical_loop (c' = CHR ''-'') cs)"

text \<open>
  \<^verbatim>\<open>textproto.CanonicalMIMEHeaderKey\<close>: a key with a byte that is no token byte is
  returned as it is; otherwise the first letter and every letter after a dash are upper
  case, the others lower case.
\<close>

definition CanonicalMIMEHeaderKey :: "string \<Rightarrow> string" where
  "CanonicalMIMEHeaderKey s = (if list_all isToken s then canonical_loop True s else s)"

definition Header_Set :: "(string \<rightharpoonup> string list) \<Rightarrow> string \<Rightarrow> string \<Rightarrow> (string \<rightharpoonup> string list)" where
  "Header_Set h key v = h(CanonicalMIMEHeaderKey key \<mapsto> [v])"

definition Header_Get :: "(string \<rightharpoonup> string list) \<Rightarrow> string \<Rightarrow> string" where
  "Header_Get h key =
    (case h (CanonicalMIMEHeaderKey key) of None \<Rightarrow> [] | Some [] \<Rightarrow> [] | Some (v # _) \<Rightarrow> v)"

definition stringContainsCTLByte :: "string \<Rightarrow> bool" where
  "stringContainsCTLByte s = list_ex (\<lambda>b. byte b < 0x20 \<or> byte b = 0x7F) s"

definition validMethod :: "string \<Rightarrow> bool" where
  "validMethod m = (m \<noteq> [] \<and> list_all isToken m)"

text \<open>
  \<^verbatim>\<open>http.NewRequest\<close> fails on a method that is no token and on a URL that
  \<^verbatim>\<open>url.Parse\<close> rejects. \<^verbatim>\<open>url.Parse\<close> first rejects every URL with an
  ASCII control byte; its further syntax checks (scheme, authority, percent escapes) are
  the parameter \<open>urlSyntax\<close>.
\<close>

definition http_NewRequest ::
  "(string \<Rightarrow> bool) \<Rightarrow> string \<Rightarrow> string \<Rightarrow> string option \<Rightarrow> error + request" where
  "http_NewRequest urlSyntax method url body =
    (if \<not> validMethod method then Inl (MethodError method)
     else if stringContainsCTLByte url then
       Inl (UrlError ''net/url: invalid control character in URL'')
     else if \<not> urlSyntax url then Inl (UrlError url)
     else Inr \<lparr>Method = method, URL = url, Header = Map.empty, ReqBody = body\<rparr>)"

definition client_Do ::
  "Client \<Rightarrow> request \<Rightarrow> request list \<Rightarrow> (error + response) \<times> request list" where
  "client_Do cli req log = (HttpClient cli log req, log @ [req])"

definition client_Get ::
  "(string \<Rightarrow> bool) \<Rightarrow> Client \<Rightarrow> string \<Rightarrow> request list \<Rightarrow> (error + response) \<times> request list" where
  "client_Get urlSyntax cli url log =
    (case http_NewRequest urlSyntax ''GET'' url None of
       Inl err \<Rightarrow> (Inl err, log)
     | Inr req \<Rightarrow> client_Do cli req log)"

definition client_Post ::
  "(string \<Rightarrow> bool) \<Rightarrow> Client \<Rightarrow> string \<Rightarrow> string \<Rightarrow> string \<Rightarrow> request list
     \<Rightarrow> (error + response) \<times> request list" where
  "client_Post urlSyntax cli url contentType body log =
    (case http_NewRequest urlSyntax ''POST'' url (Some body) of
       Inl err \<Rightarrow> (Inl err, log)
     | Inr req \<Rightarrow>
         client_Do cli (req\<lparr>Header := Header_Set (Header req) ''Content-Type'' contentType\<rparr>) log)"

text \<open>\<^verbatim>\<open>io.ReadAll\<close> on a response body.\<close>

definition io_ReadAll :: "response \<Rightarrow> error + string" where
  "io_ReadAll resp =
    (case BodyErr resp of None \<Rightarrow> Inr (Body resp) | Some msg \<Rightarrow> Inl (ReadError msg))"

section \<open>Validation (package ozzo-validation)\<close>

text \<open>
  The two rules the client uses, on a string value. \<^verbatim>\<open>Required\<close> rejects the empty
  string. \<^verbatim>\<open>Length(min, max)\<close> accepts the empty string and otherwise compares
  the number of bytes with the bounds (a bound of 0 is no bound).
  \<^verbatim>\<open>Validate\<close> applies the rules in order and returns the first error.
\<close>

datatype rule = Required | Length nat nat

fun rule_Validate :: "rule \<Rightarrow> string \<Rightarrow> error option" where
  "rule_Validate Required v = (if v = [] then Some ErrRequired else None)"
| "rule_Validate (Length lo hi) v =
    (if v = [] then None
     else if (0 < lo \<and> length v < lo) \<or> (0 < hi \<and> hi < length v) then Some (ErrLength lo hi)
     else None)"

fun validation_Validate :: "string \<Rightarrow> rule list \<Rightarrow> error option" where
  "validation_Validate v [] = None"
| "validation_Validate v (r # rs) =
    (case rule_Validate r v of Some err \<Rightarrow> Some err | None \<Rightarrow> validation_Validate v rs)"

section \<open>JSON decoding (package encoding/json, Unmarshal and Decoder)\<close>

subsection \<open>String literals\<close>

definition hexval :: "char \<Rightarrow> nat option" where
  "hexval c =
    (if isDigit c then Some (byte c - 0x30)
     else if 0x61 \<le> byte c \<and> byte c \<le> 0x66 then Some (byte c - 0x61 + 10)
     else if 0x41 \<le> byte c \<and> byte c \<le> 0x46 then Some (byte c - 0x41 + 10)
     else None)"

text \<open>
  \<^verbatim>\<open>getu4\<close>: the value of a \<^verbatim>\<open>\uXXXX\<close> escape at the front of the bytes,
  \<open>None\<close> for Go's \<open>-1\<close>.
\<close>

fun getu4 :: "string \<Rightarrow> nat option" where
  "getu4 (b # u # h1 # h2 # h3 # h4 # _) =
    (if b \<noteq> backslash \<or> u \<noteq> CHR ''u'' then None
     else case (hexval h1, hexval h2, hexval h3, hexval h4) of
       (Some a, Some b, Some c, Some d) \<Rightarrow> Some (a * 0x1000 + b * 0x100 + c * 0x10 + d)
     | _ \<Rightarrow> None)"
| "getu4 _ = None"

definition utf16_IsSurrogate :: "nat \<Rightarrow> bool" where
  "utf16_IsSurrogate r = (0xD800 \<le> r \<and> r < 0xE000)"

definition utf16_DecodeRune :: "nat \<Rightarrow> nat option \<Rightarrow> nat" where
  "utf16_DecodeRune r1 r2 =
    (case r2 of
       None \<Rightarrow> RuneError
     | Some r2' \<Rightarrow>
         if 0xD800 \<le> r1 \<and> r1 < 0xDC00 \<and> 0xDC00 \<le> r2' \<and> r2' < 0xE000
         then (r1 - 0xD800) * 0x400 + (r2' - 0xDC00) + 0x10000
         else RuneError)"

text \<open>
  \<^verbatim>\<open>unquoteBytes\<close> on the bytes between the quotes of a string literal: escapes are
  replaced, ASCII is copied, and every other rune is decoded and encoded again, so that
  ill-formed UTF-8 comes out as U+FFFD. \<open>None\<close> is Go's \<open>ok = false\<close>.
\<close>

function unquote :: "string \<Rightarrow> string option" where
  "unquote [] = Some []"
| "unquote (c # cs) =
    (if c = backslash then
       (case cs of
          [] \<Rightarrow> None
        | e # rest \<Rightarrow>
            if e = dquote \<or> e = backslash \<or> e = CHR ''/'' \<or> e = CHR 0x27 then
              map_option ((#) e) (unquote rest)
            else if e = CHR ''b'' then map_option ((#) (CHR 0x08)) (unquote rest)
            else if e = CHR ''f'' then map_option ((#) (CHR 0x0C)) (unquote rest)
            else if e = CHR ''n'' then map_option ((#) (CHR 0x0A)) (unquote rest)
            else if e = CHR ''r'' then map_option ((#) (CHR 0x0D)) (unquote rest)
            else if e = CHR ''t'' then map_option ((#) (CHR 0x09)) (unquote rest)
            else if e = CHR ''u'' then
              (case getu4 (c # cs) of
                 None \<Rightarrow> None
               | Some rr \<Rightarrow>
                   if utf16_IsSurrogate rr then
                     (let dec = utf16_DecodeRune rr (getu4 (drop 5 cs)) in
                      if dec \<noteq> RuneError then
                        map_option ((@) (utf8_EncodeRune dec)) (unquote (drop 11 cs))
                      else map_option ((@) (utf8_EncodeRune RuneError)) (unquote (drop 5 cs)))
                   else map_option ((@) (utf8_EncodeRune rr)) (unquote (drop 5 cs)))
            else None)
     else if c = dquote \<or> byte c < 0x20 then None
     else if byte c < 0x80 then map_option ((#) c) (unquote cs)
     else
       (case utf8_DecodeRune (c # cs) of
          (rr, n) \<Rightarrow> map_option ((@) (utf8_EncodeRune rr)) (unquote (drop (n - 1) cs))))"
  by pat_completeness auto
termination
  by (relation "measure length") auto

subsection \<open>The scanner\<close>

datatype json =
    JNull
  | JBool bool
  | JNumber string
  | JString string
  | JArray "json list"
  | JObject "(string \<times> json) list"

text \<open>
  The entries of the scanner's \<^verbatim>\<open>parseState\<close> stack. Beside the three states of
  the Go scanner, an entry holds what has been read of its array or object so far, so
  that the scan also yields the value (Go reads the value in a second pass over the same
  bytes, guided by the same scanner).
\<close>

datatype frame =
    parseObjectKey "(string \<times> json) list"
  | parseObjectValue "(string \<times> json) list" string
  | parseArrayValue "json list"

datatype step =
    stateBeginValueOrEmpty | stateBeginValue | stateBeginStringOrEmpty | stateBeginString
  | stateEndValue | stateEndTop
  | stateInString | stateInStringEsc
  | stateInStringEscU | stateInStringEscU1 | stateInStringEscU12 | stateInStringEscU123
  | stateNeg | state1 | state0 | stateDot | stateDot0 | stateE | stateESign | stateE0
  | stateT | stateTr | stateTru | stateF | stateFa | stateFal | stateFals
  | stateN | stateNu | stateNul
  | stateError

datatype opcode =
    scanContinue | scanBeginLiteral | scanBeginObject | scanObjectKey | scanObjectValue
  | scanEndObject | scanBeginArray | scanArrayValue | scanEndArray | scanSkipSpace
  | scanEnd | scanError

text \<open>
  The scanner: the Go fields \<^verbatim>\<open>step\<close>, \<^verbatim>\<open>endTop\<close>, \<^verbatim>\<open>parseState\<close>
  (top of the stack first) and \<^verbatim>\<open>err\<close>; \<open>scan_lit\<close> holds the bytes of the
  literal being read (a string without its quotes, or a number) and \<open>scan_last\<close> the
  value that has just ended.
\<close>

record scanner =
  step :: step
  endTop :: bool
  parseState :: "frame list"
  scan_err :: "error option"
  scan_lit :: string
  scan_last :: json

definition scanner_reset :: scanner where
  "scanner_reset =
    \<lparr>step = stateBeginValue, endTop = False, parseState = [], scan_err = None,
     scan_lit = [], scan_last = JNull\<rparr>"

definition maxNestingDepth :: nat where
  "maxNestingDepth = 10000"

definition isSpace :: "char \<Rightarrow> bool" where
  "isSpace c = (c = CHR '' '' \<or> c = CHR 0x09 \<or> c = CHR 0x0D \<or> c = CHR 0x0A)"

definition scanner_error :: "scanner \<Rightarrow> char \<Rightarrow> string \<Rightarrow> opcode \<times> scanner" where
  "scanner_error s c context =
    (scanError, s\<lparr>step := stateError, scan_err := Some (InvalidCharacter c context)\<rparr>)"

definition phasePanic :: "scanner \<Rightarrow> opcode \<times> scanner" where
  "phasePanic s = (scanError, s\<lparr>step := stateError, scan_err := Some PhasePanic\<rparr>)"

definition pushParseState :: "scanner \<Rightarrow> char \<Rightarrow> frame \<Rightarrow> opcode \<Rightarrow> opcode \<times> scanner" where
  "pushParseState s c newParseState successState =
    (let s' = s\<lparr>parseState := newParseState # parseState s\<rparr> in
     if length (parseState s') \<le> maxNestingDepth then (successState, s')
     else scanner_error s' c ''exceeded max depth'')"

definition popParseState :: "scanner \<Rightarrow> scanner" where
  "popParseState s =
    (let ps = tl (parseState s) in
     if ps = [] then s\<lparr>parseState := ps, step := stateEndTop, endTop := True\<rparr>
     else s\<lparr>parseState := ps, step := stateEndValue\<rparr>)"

definition stateEndTop_f :: "scanner \<Rightarrow> char \<Rightarrow> opcode \<times> scanner" where
  "stateEndTop_f s c =
    (if \<not> isSpace c then (scanEnd, snd (scanner_error s c ''after top-level value''))
     else (scanEnd, s))"

text \<open>
  \<^verbatim>\<open>stateEndValue\<close>: the byte after a value. The value that has just ended is
  \<open>scan_last\<close>; a colon makes it the key of the member being read, a comma or a closing
  bracket adds it to the object or array on top of the stack.
\<close>

definition stateEndValue_f :: "scanner \<Rightarrow> char \<Rightarrow> opcode \<times> scanner" where
  "stateEndValue_f s c =
    (case parseState s of
       [] \<Rightarrow> stateEndTop_f (s\<lparr>step := stateEndTop, endTop := True\<rparr>) c
     | ps # stack \<Rightarrow>
         if isSpace c then (scanSkipSpace, s\<lparr>step := stateEndValue\<rparr>)
         else
           (case ps of
              parseObjectKey members \<Rightarrow>
                if c = CHR '':'' then
                  (case scan_last s of
                     JString key \<Rightarrow>
                       (scanObjectKey,
                        s\<lparr>parseState := parseObjectValue members key # stack,
                          step := stateBeginValue\<rparr>)
                   | _ \<Rightarrow> phasePanic s)
                else scanner_error s c ''after object key''
            | parseObjectValue members key \<Rightarrow>
                if c = CHR '','' then
                  (scanObjectValue,
                   s\<lparr>parseState := parseObjectKey (members @ [(key, scan_last s)]) # stack,
                     step := stateBeginString\<rparr>)
                else if c = CHR ''}'' then
                  (scanEndObject,
                   popParseState (s\<lparr>scan_last := JObject (members @ [(key, scan_last s)])\<rparr>))
                else scanner_error s c ''after object key:value pair''
            | parseArrayValue elements \<Rightarrow>
                if c = CHR '','' then
                  (scanArrayValue,
                   s\<lparr>parseState := parseArrayValue (elements @ [scan_last s]) # stack,
                     step := stateBeginValue\<rparr>)
                else if c = CHR '']'' then
                  (scanEndArray,
                   popParseState (s\<lparr>scan_last := JArray (elements @ [scan_last s])\<rparr>))
                else scanner_error s c ''after array element''))"

definition stateBeginValue_f :: "scanner \<Rightarrow> char \<Rightarrow> opcode \<times> scanner" where
  "stateBeginValue_f s c =
    (if isSpace c then (scanSkipSpace, s)
     else if c = CHR ''{'' then
       pushParseState (s\<lparr>step := stateBeginStringOrEmpty\<rparr>) c (parseObjectKey []) scanBeginObject
     else if c = CHR ''['' then
       pushParseState (s\<lparr>step := stateBeginValueOrEmpty\<rparr>) c (parseArrayValue []) scanBeginArray
     else if c = dquote then (scanBeginLiteral, s\<lparr>step := stateInString, scan_lit := []\<rparr>)
     else if c = CHR ''-'' then (scanBeginLiteral, s\<lparr>step := stateNeg, scan_lit := [c]\<rparr>)
     else if c = CHR ''0'' then (scanBeginLiteral, s\<lparr>step := state0, scan_lit := [c]\<rparr>)
     else if c = CHR ''t'' then (scanBeginLiteral, s\<lparr>step := stateT\<rparr>)
     else if c = CHR ''f'' then (scanBeginLiteral, s\<lparr>step := stateF\<rparr>)
     else if c = CHR ''n'' then (scanBeginLiteral, s\<lparr>step := stateN\<rparr>)
     else if 0x31 \<le> byte c \<and> byte c \<le> 0x39 then
       (scanBeginLiteral, s\<lparr>step := state1, scan_lit := [c]\<rparr>)
     else scanner_error s c ''looking for beginning of value'')"

definition stateBeginString_f :: "scanner \<Rightarrow> char \<Rightarrow> opcode \<times> scanner" where
  "stateBeginString_f s c =
    (if isSpace c then (scanSkipSpace, s)
     else if c = dquote then (scanBeginLiteral, s\<lparr>step := stateInString, scan_lit := []\<rparr>)
     else scanner_error s c ''looking for beginning of object key string'')"

definition endNumber :: "scanner \<Rightarrow> char \<Rightarrow> opcode \<times> scanner" where
  "endNumber s c = stateEndValue_f (s\<lparr>scan_last := JNumber (scan_lit s)\<rparr>) c"

definition state0_f :: "scanner \<Rightarrow> char \<Rightarrow> opcode \<times> scanner" where
  "state0_f s c =
    (if c = CHR ''.'' then (scanContinue, s\<lparr>step := stateDot, scan_lit := scan_lit s @ [c]\<rparr>)
     else if c = CHR ''e'' \<or> c = CHR ''E'' then
       (scanContinue, s\<lparr>step := stateE, scan_lit := scan_lit s @ [c]\<rparr>)
     else endNumber s c)"

definition stateESign_f :: "scanner \<Rightarrow> char \<Rightarrow> opcode \<times> scanner" where
  "stateESign_f s c =
    (if isDigit c then (scanContinue, s\<lparr>step := stateE0, scan_lit := scan_lit s @ [c]\<rparr>)
     else scanner_error s c ''in exponent of numeric literal'')"

definition literalStep ::
  "scanner \<Rightarrow> char \<Rightarrow> char \<Rightarrow> step \<Rightarrow> string \<Rightarrow> opcode \<times> scanner" where
  "literalStep s c expected next context =
    (if c = expected then (scanContinue, s\<lparr>step := next\<rparr>) else scanner_error s c context)"

definition literalEnd ::
  "scanner \<Rightarrow> char \<Rightarrow> char \<Rightarrow> json \<Rightarrow> string \<Rightarrow> opcode \<times> scanner" where
  "literalEnd s c expected v context =
    (if c = expected then (scanContinue, s\<lparr>step := stateEndValue, scan_last := v\<rparr>)
     else scanner_error s c context)"

definition hexStep :: "scanner \<Rightarrow> char \<Rightarrow> step \<Rightarrow> opcode \<times> scanner" where
  "hexStep s c next =
    (if hexval c \<noteq> None then (scanContinue, s\<lparr>step := next, scan_lit := scan_lit s @ [c]\<rparr>)
     else scanner_error s c ''in u hexadecimal character escape'')"

text \<open>
  One step of the scanner on one byte, by the state function in \<^verbatim>\<open>step\<close>. A closing
  bracket right after the opening one ends an empty array or object.
\<close>

fun stepf :: "step \<Rightarrow> scanner \<Rightarrow> char \<Rightarrow> opcode \<times> scanner" where
  "stepf stateBeginValueOrEmpty s c =
    (if isSpace c then (scanSkipSpace, s)
     else if c = CHR '']'' then (scanEndArray, popParseState (s\<lparr>scan_last := JArray []\<rparr>))
     else stateBeginValue_f s c)"
| "stepf stateBeginValue s c = stateBeginValue_f s c"
| "stepf stateBeginStringOrEmpty s c =
    (if isSpace c then (scanSkipSpace, s)
     else if c = CHR ''}'' then (scanEndObject, popParseState (s\<lparr>scan_last := JObject []\<rparr>))
     else stateBeginString_f s c)"
| "stepf stateBeginString s c = stateBeginString_f s c"
| "stepf stateEndValue s c = stateEndValue_f s c"
| "stepf stateEndTop s c = stateEndTop_f s c"
| "stepf stateInString s c =
    (if c = dquote then
       (case unquote (scan_lit s) of
          Some str \<Rightarrow> (scanContinue, s\<lparr>step := stateEndValue, scan_last := JString str\<rparr>)
        | None \<Rightarrow> phasePanic s)
     else if c = backslash then
       (scanContinue, s\<lparr>step := stateInStringEsc, scan_lit := scan_lit s @ [c]\<rparr>)
     else if byte c < 0x20 then scanner_error s c ''in string literal''
     else (scanContinue, s\<lparr>scan_lit := scan_lit s @ [c]\<rparr>))"
| "stepf stateInStringEsc s c =
    (if c \<in> set ''bfnrt/'' \<or> c = backslash \<or> c = dquote then
       (scanContinue, s\<lparr>step := stateInString, scan_lit := scan_lit s @ [c]\<rparr>)
     else if c = CHR ''u'' then
       (scanContinue, s\<lparr>step := stateInStringEscU, scan_lit := scan_lit s @ [c]\<rparr>)
     else scanner_error s c ''in string escape code'')"
| "stepf stateInStringEscU s c = hexStep s c stateInStringEscU1"
| "stepf stateInStringEscU1 s c = hexStep s c stateInStringEscU12"
| "stepf stateInStringEscU12 s c = hexStep s c stateInStringEscU123"
| "stepf stateInStringEscU123 s c = hexStep s c stateInString"
| "stepf stateNeg s c =
    (if c = CHR ''0'' then (scanContinue, s\<lparr>step := state0, scan_lit := scan_lit s @ [c]\<rparr>)
     else if 0x31 \<le> byte c \<and> byte c \<le> 0x39 then
       (scanContinue, s\<lparr>step := state1, scan_lit := scan_lit s @ [c]\<rparr>)
     else scanner_error s c ''in numeric literal'')"
| "stepf state1 s c =
    (if isDigit c then (scanContinue, s\<lparr>step := state1, scan_lit := scan_lit s @ [c]\<rparr>)
     else state0_f s c)"
| "stepf state0 s c = state0_f s c"
| "stepf stateDot s c =
    (if isDigit c then (scanContinue, s\<lparr>step := stateDot0, scan_lit := scan_lit s @ [c]\<rparr>)
     else scanner_error s c ''after decimal point in numeric literal'')"
| "stepf stateDot0 s c =
    (if isDigit c then (scanContinue, s\<lparr>scan_lit := scan_lit s @ [c]\<rparr>)
     else if c = CHR ''e'' \<or> c = CHR ''E'' then
       (scanContinue, s\<lparr>step := stateE, scan_lit := scan_lit s @ [c]\<rparr>)
     else endNumber s c)"
| "stepf stateE s c =
    (if c = CHR ''+'' \<or> c = CHR ''-'' then
       (scanContinue, s\<lparr>step := stateESign, scan_lit := scan_lit s @ [c]\<rparr>)
     else stateESign_f s c)"
| "stepf stateESign s c = stateESign_f s c"
| "stepf stateE0 s c =
    (if isDigit c then (scanContinue, s\<lparr>scan_lit := scan_lit s @ [c]\<rparr>) else endNumber s c)"
| "stepf stateT s c = literalStep s c (CHR ''r'') stateTr ''in literal true (expecting r)''"
| "stepf stateTr s c = literalStep s c (CHR ''u'') stateTru ''in literal true (expecting u)''"
| "stepf stateTru s c = literalEnd s c (CHR ''e'') (JBool True) ''in literal true (expecting e)''"
| "stepf stateF s c = literalStep s c (CHR ''a'') stateFa ''in literal false (expecting a)''"
| "stepf stateFa s c = literalStep s c (CHR ''l'') stateFal ''in literal false (expecting l)''"
| "stepf stateFal s c = literalStep s c (CHR ''s'') stateFals ''in literal false (expecting s)''"
| "stepf stateFals s c = literalEnd s c (CHR ''e'') (JBool False) ''in literal false (expecting e)''"
| "stepf stateN s c = literalStep s c (CHR ''u'') stateNu ''in literal null (expecting u)''"
| "stepf stateNu s c = literalStep s c (CHR ''l'') stateNul ''in literal null (expecting l)''"
| "stepf stateNul s c = literalEnd s c (CHR ''l'') JNull ''in literal null (expecting l)''"
| "stepf stateError s c = (scanError, s)"

definition scan_step :: "scanner \<Rightarrow> char \<Rightarrow> opcode \<times> scanner" where
  "scan_step s c = stepf (step s) s c"

definition scanner_the_err :: "scanner \<Rightarrow> error" where
  "scanner_the_err s = (case scan_err s of Some e \<Rightarrow> e | None \<Rightarrow> PhasePanic)"

text \<open>\<^verbatim>\<open>scanner.eof\<close>: the end of the input, read as one more space.\<close>

definition scanner_eof :: "scanner \<Rightarrow> opcode \<times> scanner" where
  "scanner_eof s =
    (if scan_err s \<noteq> None then (scanError, s)
     else if endTop s then (scanEnd, s)
     else
       let s' = snd (scan_step s (CHR '' '')) in
       if endTop s' then (scanEnd, s')
       else if scan_err s' = None then
         (scanError, s'\<lparr>scan_err := Some (SyntaxError ''unexpected end of JSON input'')\<rparr>)
       else (scanError, s'))"

fun checkValid_loop :: "scanner \<Rightarrow> string \<Rightarrow> error + scanner" where
  "checkValid_loop s [] = Inr s"
| "checkValid_loop s (c # cs) =
    (case scan_step s c of
       (code, s') \<Rightarrow> if code = scanError then Inl (scanner_the_err s') else checkValid_loop s' cs)"

text \<open>
  \<^verbatim>\<open>checkValid\<close>: the whole input must be one JSON value, with white space around
  it at most. The result carries the value read.
\<close>

definition checkValid :: "string \<Rightarrow> error + json" where
  "checkValid data =
    (case checkValid_loop scanner_reset data of
       Inl e \<Rightarrow> Inl e
     | Inr s \<Rightarrow>
         (case scanner_eof s of
            (code, s') \<Rightarrow>
              if code = scanError then Inl (scanner_the_err s') else Inr (scan_last s')))"

subsection \<open>Storing a value into a Go variable\<close>

text \<open>
  A type mismatch does not stop the decoding: the first such error is kept
  (\<^verbatim>\<open>saveError\<close>) and returned at the end, and the variable at fault keeps its
  value.
\<close>

definition saveError :: "error option \<Rightarrow> error option \<Rightarrow> error option" where
  "saveError saved e = (case saved of Some e0 \<Rightarrow> Some e0 | None \<Rightarrow> e)"

fun valueKind :: "json \<Rightarrow> string" where
  "valueKind (JObject _) = ''object''"
| "valueKind (JArray _) = ''array''"
| "valueKind (JString _) = ''string''"
| "valueKind (JNumber _) = ''number''"
| "valueKind (JBool _) = ''bool''"
| "valueKind JNull = ''null''"

definition foldRune :: "nat \<Rightarrow> nat" where
  "foldRune r = (if r = 0x17F then 0x53 else if r = 0x212A then 0x4B else r)"

text \<open>
  \<^verbatim>\<open>foldName\<close>: ASCII letters in upper case, every other rune replaced by the
  smallest rune of its case-folding orbit. The orbits of U+017F (long s) and U+212A
  (Kelvin sign) are the only ones that reach ASCII; the model leaves the runes of all
  other orbits as they are, which does not change whether a key folds to the folded
  name of a field with an ASCII name.
\<close>

function foldName :: "string \<Rightarrow> string" where
  "foldName [] = []"
| "foldName (c # cs) =
    (if byte c < 0x80 then (if isLower c then char_of (byte c - 0x20) else c) # foldName cs
     else
       (case utf8_DecodeRune (c # cs) of
          (r, n) \<Rightarrow> utf8_EncodeRune (foldRune r) @ foldName (drop (n - 1) cs)))"
  by pat_completeness auto
termination
  by (relation "measure length") auto

text \<open>A key selects a struct field by its exact name or, failing that, by its folded name.\<close>

definition fieldMatch :: "string \<Rightarrow> string \<Rightarrow> bool" where
  "fieldMatch name key = (key = name \<or> foldName key = foldName name)"

fun decode_string :: "json \<Rightarrow> string \<Rightarrow> string \<times> error option" where
  "decode_string (JString s) cur = (s, None)"
| "decode_string JNull cur = (cur, None)"
| "decode_string v cur = (cur, Some (UnmarshalTypeError (valueKind v) ''string''))"

text \<open>
  The members of a JSON object stored, in order, into a struct with one field called
  \<open>name\<close>: a member whose key selects the field is stored into it by \<open>dec\<close>, any
  other member is skipped.
\<close>

fun decode_members ::
  "string \<Rightarrow> (json \<Rightarrow> 'a \<Rightarrow> 'a \<times> error option) \<Rightarrow> (string \<times> json) list \<Rightarrow> 'a
     \<Rightarrow> 'a \<times> error option" where
  "decode_members name dec [] x = (x, None)"
| "decode_members name dec ((k, v) # kvs) x =
    (if fieldMatch name k then
       (case dec v x of
          (x', e1) \<Rightarrow>
            (case decode_members name dec kvs x' of (x'', e2) \<Rightarrow> (x'', saveError e1 e2)))
     else decode_members name dec kvs x)"

fun decode_struct ::
  "string \<Rightarrow> string \<Rightarrow> (json \<Rightarrow> 'a \<Rightarrow> 'a \<times> error option) \<Rightarrow> json \<Rightarrow> 'a
     \<Rightarrow> 'a \<times> error option" where
  "decode_struct ty name dec (JObject kvs) x = decode_members name dec kvs x"
| "decode_struct ty name dec JNull x = (x, None)"
| "decode_struct ty name dec v x = (x, Some (UnmarshalTypeError (valueKind v) ty))"

text \<open>
  A Go slice: its backing array and its length; \<open>elems\<close> are the elements a caller
  sees. Decoding an array into a slice stores element \<open>i\<close> into position \<open>i\<close> of the
  backing array, on top of what an earlier decoding into the same slice left there (a
  fresh position holds the zero value \<open>z\<close>); the empty array and \<^verbatim>\<open>null\<close> give a
  fresh slice.
\<close>

type_synonym 'a slice = "'a list \<times> nat"

definition elems :: "'a slice \<Rightarrow> 'a list" where
  "elems sl = take (snd sl) (fst sl)"

fun decode_elems ::
  "(json \<Rightarrow> 'a \<Rightarrow> 'a \<times> error option) \<Rightarrow> 'a \<Rightarrow> json list \<Rightarrow> 'a list
     \<Rightarrow> 'a list \<times> error option" where
  "decode_elems dec z [] old = ([], None)"
| "decode_elems dec z (v # vs) old =
    (case dec v (case old of [] \<Rightarrow> z | x # _ \<Rightarrow> x) of
       (y, e1) \<Rightarrow>
         (case decode_elems dec z vs (tl old) of (ys, e2) \<Rightarrow> (y # ys, saveError e1 e2)))"

fun decode_slice ::
  "string \<Rightarrow> (json \<Rightarrow> 'a \<Rightarrow> 'a \<times> error option) \<Rightarrow> 'a \<Rightarrow> json \<Rightarrow> 'a slice
     \<Rightarrow> 'a slice \<times> error option" where
  "decode_slice ty dec z (JArray vs) sl =
    (if vs = [] then (([], 0), None)
     else
       (case decode_elems dec z vs (fst sl) of
          (ys, e) \<Rightarrow> ((ys @ drop (length vs) (fst sl), length vs), e)))"
| "decode_slice ty dec z JNull sl = (([], 0), None)"
| "decode_slice ty dec z v sl = (sl, Some (UnmarshalTypeError (valueKind v) ty))"

record PullResponse =
  Message :: Message

record ListTopicsResponse =
  Topics :: "string slice"

record GetMessagesResponse =
  Messages :: "Message slice"

definition decode_Message :: "json \<Rightarrow> Message \<Rightarrow> Message \<times> error option" where
  "decode_Message v m =
    (case decode_struct ''pubsubclient.Message'' ''data'' decode_string v (Data m) of
       (d, e) \<Rightarrow> (m\<lparr>Data := d\<rparr>, e))"

definition decode_PullResponse :: "json \<Rightarrow> PullResponse \<Rightarrow> PullResponse \<times> error option" where
  "decode_PullResponse v r =
    (case decode_struct ''pubsubclient.PullResponse'' ''message'' decode_Message v (Message r) of
       (m, e) \<Rightarrow> (r\<lparr>Message := m\<rparr>, e))"

definition decode_ListTopicsResponse ::
  "json \<Rightarrow> ListTopicsResponse \<Rightarrow> ListTopicsResponse \<times> error option" where
  "decode_ListTopicsResponse v r =
    (case decode_struct ''pubsubclient.ListTopicsResponse'' ''topics''
            (decode_slice ''[]string'' decode_string []) v (Topics r) of
       (ts, e) \<Rightarrow> (r\<lparr>Topics := ts\<rparr>, e))"

definition decode_GetMessagesResponse ::
  "json \<Rightarrow> GetMessagesResponse \<Rightarrow> GetMessagesResponse \<times> error option" where
  "decode_GetMessagesResponse v r =
    (case decode_struct ''pubsubclient.GetMessagesResponse'' ''messages''
            (decode_slice ''[]pubsubclient.Message'' decode_Message \<lparr>Data = []\<rparr>) v
            (Messages r) of
       (ms, e) \<Rightarrow> (r\<lparr>Messages := ms\<rparr>, e))"

text \<open>
  \<^verbatim>\<open>json.Unmarshal(data, &v)\<close> for a freshly declared \<open>v\<close> (its zero value is
  \<open>zero\<close>): the input is checked first, then stored; the result is the value stored, or
  the error.
\<close>

definition json_Unmarshal ::
  "(json \<Rightarrow> 'a \<Rightarrow> 'a \<times> error option) \<Rightarrow> 'a \<Rightarrow> string \<Rightarrow> error + 'a" where
  "json_Unmarshal dec zero data =
    (case checkValid data of
       Inl e \<Rightarrow> Inl e
     | Inr v \<Rightarrow> (case dec v zero of (x, None) \<Rightarrow> Inr x | (x, Some e) \<Rightarrow> Inl e))"

text \<open>
  \<^verbatim>\<open>Decoder.readValue\<close> on a stream that delivers the bytes \<open>buf\<close> and then ends
  with \<open>bodyErr\<close>: the scan stops at the end of the first value and never looks at what
  follows it; the end of the stream is looked at only when the bytes run out first.
\<close>

fun readValue :: "scanner \<Rightarrow> string \<Rightarrow> string \<Rightarrow> string option \<Rightarrow> error + json" where
  "readValue s [] buf bodyErr =
    (case bodyErr of
       Some msg \<Rightarrow> Inl (ReadError msg)
     | None \<Rightarrow>
         (case scan_step s (CHR '' '') of
            (code, s') \<Rightarrow>
              if code = scanEnd then Inr (scan_last s')
              else if list_ex (\<lambda>c. \<not> isSpace c) buf then Inl UnexpectedEOF
              else Inl EOF))"
| "readValue s (c # cs) buf bodyErr =
    (case scan_step s c of
       (code, s') \<Rightarrow>
         if code = scanEnd then Inr (scan_last s')
         else if code = scanEndObject \<or> code = scanEndArray then
           (case stateEndValue_f s' (CHR '' '') of
              (code', s'') \<Rightarrow>
                if code' = scanEnd then Inr (scan_last s'') else readValue s'' cs buf bodyErr)
         else if code = scanError then Inl (scanner_the_err s')
         else readValue s' cs buf bodyErr)"

text \<open>
  \<^verbatim>\<open>json.NewDecoder(resp.Body).Decode(&v)\<close>, the first and only call on the decoder,
  for a freshly declared \<open>v\<close>.
\<close>

definition json_Decode ::
  "(json \<Rightarrow> 'a \<Rightarrow> 'a \<times> error option) \<Rightarrow> 'a \<Rightarrow> response \<Rightarrow> error + 'a" where
  "json_Decode dec zero resp =
    (case readValue scanner_reset (Body resp) (Body resp) (BodyErr resp) of
       Inl e \<Rightarrow> Inl e
     | Inr v \<Rightarrow> (case dec v zero of (x, None) \<Rightarrow> Inr x | (x, Some e) \<Rightarrow> Inl e))"

section \<open>The client (client.go)\<close>

definition CreateTopic ::
  "(string \<Rightarrow> bool) \<Rightarrow> Client \<Rightarrow> Topic \<Rightarrow> request list \<Rightarrow> error option \<times> request list" where
  "CreateTopic urlSyntax cli topic log =
    (case json_Marshal_Topic topic of
       Inl err \<Rightarrow> (Some err, log)
     | Inr topicJson \<Rightarrow>
         (case client_Post urlSyntax cli (BaseURL cli @ ''/topics'') ''application/json''
                 topicJson log of
            (Inl err, log') \<Rightarrow> (Some err, log')
          | (Inr resp, log') \<Rightarrow>
              if StatusCode resp \<noteq> 201 then
                (Some (Errorf_d ''error creating topic: expected status code 201, got ''
                         (StatusCode resp)), log')
              else (None, log')))"

definition CreateSubscription ::
  "(string \<Rightarrow> bool) \<Rightarrow> Client \<Rightarrow> string \<Rightarrow> Subscription \<Rightarrow> request list
     \<Rightarrow> error option \<times> request list" where
  "CreateSubscription urlSyntax cli topicName subscription log =
    (case json_Marshal_Subscription subscription of
       Inl err \<Rightarrow> (Some err, log)
     | Inr subscriptionJson \<Rightarrow>
         (case client_Post urlSyntax cli
                 (BaseURL cli @ ''/topics/'' @ topicName @ ''/subscriptions'')
                 ''application/json'' subscriptionJson log of
            (Inl err, log') \<Rightarrow> (Some err, log')
          | (Inr resp, log') \<Rightarrow>
              if StatusCode resp \<noteq> 201 then
                (Some (Errorf_d ''error creating subscription: expected status code 201, got ''
                         (StatusCode resp)), log')
              else (None, log')))"

text \<open>
  The loop \<^verbatim>\<open>for key, value := range headers\<close>. A Go map is visited in an order the
  runtime chooses: the headers are the list of the map's entries in the order of the visit.
\<close>

fun setHeaders :: "request \<Rightarrow> (string \<times> string) list \<Rightarrow> request" where
  "setHeaders req [] = req"
| "setHeaders req ((key, v) # headers) =
    setHeaders (req\<lparr>Header := Header_Set (Header req) key v\<rparr>) headers"

text \<open>\<^verbatim>\<open>PublishMessage\<close> of the client with the exported \<^verbatim>\<open>HttpClient\<close> field.\<close>

definition PublishMessage ::
  "(string \<Rightarrow> bool) \<Rightarrow> Client \<Rightarrow> string \<Rightarrow> Message \<Rightarrow> (string \<times> string) list \<Rightarrow> request list
     \<Rightarrow> error option \<times> request list" where
  "PublishMessage urlSyntax cli topicName message headers log =
    (case json_Marshal_Message message of
       Inl err \<Rightarrow> (Some err, log)
     | Inr messageJson \<Rightarrow>
         (case http_NewRequest urlSyntax ''POST''
                 (BaseURL cli @ ''/topics/'' @ topicName @ ''/publish'') (Some messageJson) of
            Inl err \<Rightarrow> (Some err, log)
          | Inr req \<Rightarrow>
              (case client_Do cli (setHeaders req headers) log of
                 (Inl err, log') \<Rightarrow> (Some err, log')
               | (Inr resp, log') \<Rightarrow>
                   if StatusCode resp \<noteq> 201 then
                     (Some (Errorf_d ''error publishing message: expected status code 201, got ''
                              (StatusCode resp)), log')
                   else (None, log'))))"

text \<open>\<^verbatim>\<open>PublishMessage\<close> of the client with the unexported \<^verbatim>\<open>httpClient\<close> field.\<close>

definition PublishMessage_Post ::
  "(string \<Rightarrow> bool) \<Rightarrow> Client \<Rightarrow> string \<Rightarrow> Message \<Rightarrow> request list
     \<Rightarrow> error option \<times> request list" where
  "PublishMessage_Post urlSyntax cli topicName message log =
    (case json_Marshal_Message message of
       Inl err \<Rightarrow> (Some err, log)
     | Inr messageJson \<Rightarrow>
         (case client_Post urlSyntax cli (BaseURL cli @ ''/topics/'' @ topicName @ ''/publish'')
                 ''application/json'' messageJson log of
            (Inl err, log') \<Rightarrow> (Some err, log')
          | (Inr resp, log') \<Rightarrow>
              if StatusCode resp \<noteq> 201 then
                (Some (Errorf_d ''error publishing message: expected status code 201, got ''
                         (StatusCode resp)), log')
              else (None, log')))"

definition PullMessage ::
  "(string \<Rightarrow> bool) \<Rightarrow> Client \<Rightarrow> string \<Rightarrow> request list \<Rightarrow> (error + Message) \<times> request list" where
  "PullMessage urlSyntax cli subscriptionName log =
    (case client_Get urlSyntax cli (BaseURL cli @ ''/subscriptions/'' @ subscriptionName @ ''/pull'')
            log of
       (Inl err, log') \<Rightarrow> (Inl err, log')
     | (Inr resp, log') \<Rightarrow>
         (case io_ReadAll resp of
            Inl err \<Rightarrow> (Inl err, log')
          | Inr body \<Rightarrow>
              (case json_Unmarshal decode_PullResponse \<lparr>Message = \<lparr>Data = []\<rparr>\<rparr> body of
                 Inl err \<Rightarrow> (Inl err, log')
               | Inr pullResponse \<Rightarrow> (Inr (Message pullResponse), log'))))"

definition ListTopics ::
  "(string \<Rightarrow> bool) \<Rightarrow> Client \<Rightarrow> request list \<Rightarrow> (error + string list) \<times> request list" where
  "ListTopics urlSyntax cli log =
    (case client_Get urlSyntax cli (BaseURL cli @ ''/topics'') log of
       (Inl err, log') \<Rightarrow> (Inl err, log')
     | (Inr resp, log') \<Rightarrow>
         (case io_ReadAll resp of
            Inl err \<Rightarrow> (Inl err, log')
          | Inr body \<Rightarrow>
              if StatusCode resp \<noteq> 200 then
                (Inl (Errorf_d ''failed to list topics, status code: '' (StatusCode resp)), log')
              else
                (case json_Unmarshal decode_ListTopicsResponse \<lparr>Topics = ([], 0)\<rparr> body of
                   Inl err \<Rightarrow> (Inl err, log')
                 | Inr listTopicsResponse \<Rightarrow> (Inr (elems (Topics listTopicsResponse)), log'))))"

definition topicRules :: "rule list" where
  "topicRules = [Required, Length 1 255]"

text \<open>The loop \<^verbatim>\<open>for _, t := range topics\<close> of \<^verbatim>\<open>TopicExists\<close>.\<close>

fun rangeTopics :: "string list \<Rightarrow> string \<Rightarrow> bool" where
  "rangeTopics [] topic = False"
| "rangeTopics (t # topics) topic = (if t = topic then True else rangeTopics topics topic)"

definition TopicExists ::
  "(string \<Rightarrow> bool) \<Rightarrow> Client \<Rightarrow> string \<Rightarrow> request list \<Rightarrow> (error + bool) \<times> request list" where
  "TopicExists urlSyntax cli topic log =
    (case validation_Validate topic topicRules of
       Some err \<Rightarrow> (Inl (Errorf_v ''invalid topic: '' err), log)
     | None \<Rightarrow>
         (case ListTopics urlSyntax cli log of
            (Inl err, log') \<Rightarrow> (Inl (Errorf_v ''failed to list topics: '' err), log')
          | (Inr topics, log') \<Rightarrow> (Inr (rangeTopics topics topic), log')))"

definition EnsureTopicExists ::
  "(string \<Rightarrow> bool) \<Rightarrow> Client \<Rightarrow> string \<Rightarrow> request list \<Rightarrow> error option \<times> request list" where
  "EnsureTopicExists urlSyntax cli topic log =
    (case validation_Validate topic topicRules of
       Some err \<Rightarrow> (Some (Errorf_v ''invalid topic: '' err), log)
     | None \<Rightarrow>
         (case TopicExists urlSyntax cli topic log of
            (Inl err, log') \<Rightarrow> (Some err, log')
          | (Inr exists, log') \<Rightarrow>
              if \<not> exists then
                (case CreateTopic urlSyntax cli \<lparr>Name = topic, Type = []\<rparr> log' of
                   (Some err, log'') \<Rightarrow> (Some (Errorf_v ''failed to create topic: '' err), log'')
                 | (None, log'') \<Rightarrow> (None, log''))
              else (None, log')))"


section \<open>Example environments\<close>

text \<open>
  Concrete environments for the examples: an HTTP client that answers every request with
  the same status and body, one that fails every request, one that rewrites the status
  code of the responses of another, and a URL syntax check that accepts everything.
\<close>

definition fixedServer :: "int \<Rightarrow> string \<Rightarrow> httpClient" where
  "fixedServer code body = (\<lambda>log req. Inr \<lparr>StatusCode = code, Body = body, BodyErr = None\<rparr>)"

definition brokenTransport :: httpClient where
  "brokenTransport = (\<lambda>log req. Inl (TransportError ''connection refused''))"

definition anyURL :: "string \<Rightarrow> bool" where
  "anyURL u = True"

definition exampleClient :: "int \<Rightarrow> string \<Rightarrow> Client" where
  "exampleClient code body = \<lparr>BaseURL = ''http://h'', HttpClient = fixedServer code body\<rparr>"

definition mapStatus :: "(int \<Rightarrow> int) \<Rightarrow> httpClient \<Rightarrow> httpClient" where
  "mapStatus f hc =
    (\<lambda>log req. map_sum id (\<lambda>resp. resp\<lparr>StatusCode := f (StatusCode resp)\<rparr>) (hc log req))"

text \<open>
  The scanner inside the string literal that is the value of the member \<open>data\<close> of a
  top-level object, after the bytes \<open>l\<close> of the literal.
\<close>

definition inData :: "string \<Rightarrow> scanner" where
  "inData l =
    \<lparr>step = stateInString, endTop = False, parseState = [parseObjectValue [] ''data''],
     scan_err = None, scan_lit = l, scan_last = JString ''data''\<rparr>"

section \<open>Properties of the library models\<close>

lemma json_Marshal_Topic_total: "\<exists>b. json_Marshal_Topic t = Inr b"
  by (simp add: json_Marshal_Topic_def)

lemma validate_topic_None:
  "validation_Validate topic topicRules = None \<longleftrightarrow> 1 \<le> length topic \<and> length topic \<le> 255"
  by (cases topic) (auto simp: topicRules_def)

lemma validate_topic_Some:
  "length topic = 0 \<or> 255 < length topic \<Longrightarrow>
   validation_Validate topic topicRules = Some (if topic = [] then ErrRequired else ErrLength 1 255)"
  by (cases topic) (auto simp: topicRules_def)

lemma client_Get_Inr:
  assumes "client_Get urlSyntax cli url log = (Inr resp, log')"
  shows "\<not> stringContainsCTLByte url \<and> urlSyntax url
       \<and> log' = log @ [\<lparr>Method = ''GET'', URL = url, Header = Map.empty, ReqBody = None\<rparr>]"
  using assms
  by (auto simp: client_Get_def http_NewRequest_def client_Do_def split: if_splits)

lemma ListTopics_Inr:
  assumes "ListTopics urlSyntax cli log = (Inr topics, log')"
  shows "\<not> stringContainsCTLByte (BaseURL cli @ ''/topics'') \<and> urlSyntax (BaseURL cli @ ''/topics'')
       \<and> log' = log @ [\<lparr>Method = ''GET'', URL = BaseURL cli @ ''/topics'', Header = Map.empty,
                          ReqBody = None\<rparr>]"
proof -
  obtain r l where g: "client_Get urlSyntax cli (BaseURL cli @ ''/topics'') log = (r, l)"
    by (cases "client_Get urlSyntax cli (BaseURL cli @ ''/topics'') log")
  with assms obtain resp where "r = Inr resp" and "l = log'"
    by (cases r) (auto simp: ListTopics_def split: sum.splits if_splits)
  with g client_Get_Inr show ?thesis by blast
qed

lemma rangeTopics_iff: "rangeTopics topics topic \<longleftrightarrow> topic \<in> set topics"
  by (induction topics) auto

lemma validMethod_POST: "validMethod ''POST''"
  by (simp add: validMethod_def isToken_def isUpper_def isLower_def isDigit_def byte_def)




lemmas http_eval = client_Post_def client_Get_def http_NewRequest_def validMethod_def isToken_def isUpper_def isLower_def isDigit_def byte_def
      stringContainsCTLByte_def anyURL_def client_Do_def Header_Set_def CanonicalMIMEHeaderKey_def
      fixedServer_def brokenTransport_def Let_def

lemmas scan_eval = checkValid_def scanner_reset_def scan_step_def scanner_eof_def scanner_the_err_def
  stateBeginValue_f_def stateBeginString_f_def stateEndValue_f_def stateEndTop_f_def
  state0_f_def stateESign_f_def endNumber_def literalStep_def literalEnd_def hexStep_def
  pushParseState_def popParseState_def scanner_error_def phasePanic_def maxNestingDepth_def
  isSpace_def isDigit_def hexval_def byte_def dquote_def backslash_def Let_def

lemmas decode_eval = json_Unmarshal_def json_Decode_def decode_ListTopicsResponse_def
  decode_GetMessagesResponse_def decode_PullResponse_def decode_Message_def
  fieldMatch_def saveError_def elems_def isLower_def

lemma checkValid_topics_a_b:
  "checkValid ''{\"topics\":[\"a\",\"b\"]}''
     = Inr (JObject [(''topics'', JArray [JString ''a'', JString ''b''])])"
  by (simp add: scan_eval)

lemma Unmarshal_topics_a_b:
  "json_Unmarshal decode_ListTopicsResponse \<lparr>Topics = ([], 0)\<rparr> ''{\"topics\":[\"a\",\"b\"]}''
     = Inr \<lparr>Topics = ([''a'', ''b''], 2)\<rparr>"
  by (simp add: checkValid_topics_a_b decode_eval byte_def)

lemma ListTopics_example:
  "ListTopics anyURL (exampleClient 200 ''{\"topics\":[\"a\",\"b\"]}'') []
     = (Inr [''a'', ''b''],
        [\<lparr>Method = ''GET'', URL = ''http://h/topics'', Header = Map.empty, ReqBody = None\<rparr>])"
  by (simp add: ListTopics_def exampleClient_def http_eval io_ReadAll_def Unmarshal_topics_a_b
      elems_def)

lemma io_ReadAll_status: "io_ReadAll (resp\<lparr>StatusCode := c\<rparr>) = io_ReadAll resp"
  by (simp add: io_ReadAll_def split: option.splits)

lemma PullMessage_mapStatus:
  "PullMessage urlSyntax (cli\<lparr>HttpClient := mapStatus f (HttpClient cli)\<rparr>) sub log
     = PullMessage urlSyntax cli sub log"
proof (cases "http_NewRequest urlSyntax ''GET'' (BaseURL cli @ ''/subscriptions/'' @ sub @ ''/pull'') None")
  case (Inl e)
  then show ?thesis by (simp add: PullMessage_def client_Get_def)
next
  case (Inr req)
  show ?thesis
  proof (cases "HttpClient cli log req")
    case (Inl e)
    with Inr show ?thesis
      by (simp add: PullMessage_def client_Get_def client_Do_def mapStatus_def)
  next
    case r: (Inr resp)
    with Inr show ?thesis
      by (simp add: PullMessage_def client_Get_def client_Do_def mapStatus_def io_ReadAll_status)
  qed
qed

lemma checkValid_ISE:
  "checkValid ''Internal Server Error'' = Inl (InvalidCharacter (CHR ''I'') ''looking for beginning of value'')"
  by (simp add: scan_eval)

lemma validMethod_GET: "validMethod ''GET''"
  by (simp add: validMethod_def isToken_def isUpper_def isLower_def isDigit_def byte_def)



lemma char_of_eq_iff: "(char_of (n::nat) = c) = (n mod 256 = of_char c)"
proof
  assume "char_of n = c"
  then have "(of_char (char_of n) :: nat) = of_char c" by simp
  then show "n mod 256 = of_char c" by simp
next
  assume "n mod 256 = of_char c"
  then have "char_of (n mod 256) = char_of (of_char c :: nat)" by simp
  then show "char_of n = c" by simp
qed

lemma eq_char_of_iff: "(c = char_of (n::nat)) = (n mod 256 = of_char c)"
  using char_of_eq_iff [of n c] by auto

lemma setHeaders_fields:
  "Method (setHeaders req hs) = Method req \<and> URL (setHeaders req hs) = URL req
     \<and> ReqBody (setHeaders req hs) = ReqBody req"
  by (induction hs arbitrary: req) auto

lemma setHeaders_other:
  "key \<notin> (\<lambda>(k, v). CanonicalMIMEHeaderKey k) ` set hs \<Longrightarrow>
   Header (setHeaders req hs) key = Header req key"
  by (induction hs arbitrary: req) (auto simp: Header_Set_def)

lemma setHeaders_lookup:
  "distinct (map (\<lambda>(k, v). CanonicalMIMEHeaderKey k) hs) \<Longrightarrow> (k, v) \<in> set hs \<Longrightarrow>
   Header (setHeaders req hs) (CanonicalMIMEHeaderKey k) = Some [v]"
proof (induction hs arbitrary: req)
  case Nil
  then show ?case by simp
next
  case (Cons h hs)
  obtain k' v' where h: "h = (k', v')" by (cases h)
  show ?case
  proof (cases "(k, v) = (k', v')")
    case True
    with Cons.prems h have "CanonicalMIMEHeaderKey k \<notin> (\<lambda>(k, v). CanonicalMIMEHeaderKey k) ` set hs"
      by auto
    then show ?thesis
      using h True by (simp add: setHeaders_other Header_Set_def)
  next
    case False
    with Cons.prems h have "(k, v) \<in> set hs" and "distinct (map (\<lambda>(k, v). CanonicalMIMEHeaderKey k) hs)"
      by auto
    then show ?thesis
      using Cons.IH h by simp
  qed
qed

lemma appendString_x: "appendString ''x'' = ''\"x\"''"
  by (simp add: appendString_def htmlSafeSet_def byte_def dquote_def backslash_def)

lemma publish_request_example:
  "http_NewRequest anyURL ''POST'' (BaseURL (exampleClient c b) @ ''/topics/'' @ ''t'' @ ''/publish'')
      (Some ''{\"data\":\"x\"}'')
     = Inr \<lparr>Method = ''POST'', URL = ''http://h/topics/t/publish'', Header = Map.empty,
            ReqBody = Some ''{\"data\":\"x\"}''\<rparr>"
  by (simp add: exampleClient_def http_eval)

lemma canonical_examples:
  "CanonicalMIMEHeaderKey ''a'' = ''A''" "CanonicalMIMEHeaderKey ''A'' = ''A''"
  "CanonicalMIMEHeaderKey ''x-trace'' = ''X-Trace''"
  "CanonicalMIMEHeaderKey ''Authorization'' = ''Authorization''"
  by (simp_all add: CanonicalMIMEHeaderKey_def isToken_def isUpper_def isLower_def isDigit_def
      byte_def Let_def char_of_eq_iff)

lemma decode_members_nomatch:
  "\<forall>(k, v) \<in> set kvs. \<not> fieldMatch name k \<Longrightarrow> decode_members name dec kvs x = (x, None)"
  by (induction kvs) auto

lemma pull_request_example:
  "client_Get anyURL (exampleClient c b) (BaseURL (exampleClient c b) @ ''/subscriptions/'' @ ''s'' @ ''/pull'') []
     = (Inr \<lparr>StatusCode = c, Body = b, BodyErr = None\<rparr>,
        [\<lparr>Method = ''GET'', URL = ''http://h/subscriptions/s/pull'', Header = Map.empty,
           ReqBody = None\<rparr>])"
  by (simp add: exampleClient_def http_eval)

lemma checkValid_examples:
  "checkValid ''[]'' = Inr (JArray [])"
  "checkValid ''{\"Message\":{\"data\":\"x\"}}''
     = Inr (JObject [(''Message'', JObject [(''data'', JString ''x'')])])"
  "checkValid ''{\"error\":\"boom\"}'' = Inr (JObject [(''error'', JString ''boom'')])"
  by (simp_all add: scan_eval)

lemma fieldMatch_examples:
  "fieldMatch ''message'' ''Message''" "\<not> fieldMatch ''message'' ''error''"
  "fieldMatch ''data'' ''data''"
  by (simp_all add: fieldMatch_def byte_def isLower_def char_of_eq_iff eq_char_of_iff)

lemma byte_lt_256: "byte c < 256"
  by (simp add: byte_def)

lemma char_of_byte: "char_of (byte c) = c"
  by (simp add: byte_def)

lemma decode_ascii: "byte c0 < 0x80 \<Longrightarrow> utf8_DecodeRune (c0 # cs) = (byte c0, 1)"
  by (simp add: Let_def)

lemma decode_bad:
  "0x80 \<le> byte c0 \<Longrightarrow> byte c0 < 0xC2 \<or> 0xF4 < byte c0 \<Longrightarrow>
   utf8_DecodeRune (c0 # cs) = (RuneError, 1)"
  by (simp add: Let_def)

lemma decode_short2:
  "0xC2 \<le> byte c0 \<Longrightarrow> byte c0 < 0xE0 \<Longrightarrow> utf8_DecodeRune [c0] = (RuneError, 1)"
  by (simp add: Let_def)

lemma decode_short3:
  "0xE0 \<le> byte c0 \<Longrightarrow> byte c0 < 0xF0 \<Longrightarrow> length cs < 2 \<Longrightarrow>
   utf8_DecodeRune (c0 # cs) = (RuneError, 1)"
  by (simp add: Let_def)

lemma decode_short4:
  "0xF0 \<le> byte c0 \<Longrightarrow> byte c0 \<le> 0xF4 \<Longrightarrow> length cs < 3 \<Longrightarrow>
   utf8_DecodeRune (c0 # cs) = (RuneError, 1)"
  by (simp add: Let_def)

lemma decode2:
  "0xC2 \<le> byte c0 \<Longrightarrow> byte c0 < 0xE0 \<Longrightarrow>
   utf8_DecodeRune (c0 # c1 # cs) =
     (if byte c1 < 0x80 \<or> 0xBF < byte c1 then (RuneError, 1)
      else ((byte c0 mod 0x20) * 0x40 + byte c1 mod 0x40, 2))"
  by (simp add: Let_def)

lemma decode3:
  "0xE0 \<le> byte c0 \<Longrightarrow> byte c0 < 0xF0 \<Longrightarrow>
   utf8_DecodeRune (c0 # c1 # c2 # cs) =
     (if byte c1 < (if byte c0 = 0xE0 then 0xA0 else 0x80)
         \<or> (if byte c0 = 0xED then 0x9F else 0xBF) < byte c1
         \<or> byte c2 < 0x80 \<or> 0xBF < byte c2 then (RuneError, 1)
      else ((byte c0 mod 0x10) * 0x1000 + (byte c1 mod 0x40) * 0x40 + byte c2 mod 0x40, 3))"
  by (simp add: Let_def)

lemma decode4:
  "0xF0 \<le> byte c0 \<Longrightarrow> byte c0 \<le> 0xF4 \<Longrightarrow>
   utf8_DecodeRune (c0 # c1 # c2 # c3 # cs) =
     (if byte c1 < (if byte c0 = 0xF0 then 0x90 else 0x80)
         \<or> (if byte c0 = 0xF4 then 0x8F else 0xBF) < byte c1
         \<or> byte c2 < 0x80 \<or> 0xBF < byte c2 \<or> byte c3 < 0x80 \<or> 0xBF < byte c3
      then (RuneError, 1)
      else ((byte c0 mod 8) * 0x40000 + (byte c1 mod 0x40) * 0x1000
              + (byte c2 mod 0x40) * 0x40 + byte c3 mod 0x40, 4))"
  by (simp add: Let_def)

lemma utf8_DecodeRune_cases:
  assumes "utf8_DecodeRune (c0 # cs) = (r, n)" and "\<not> (r = RuneError \<and> n = 1)"
  obtains
    (ascii) "byte c0 < 0x80" "r = byte c0" "n = 1"
  | (two) c1 cs' where "cs = c1 # cs'" "0xC2 \<le> byte c0" "byte c0 < 0xE0"
      "0x80 \<le> byte c1" "byte c1 \<le> 0xBF"
      "r = (byte c0 mod 0x20) * 0x40 + byte c1 mod 0x40" "n = 2"
  | (three) c1 c2 cs' where "cs = c1 # c2 # cs'" "0xE0 \<le> byte c0" "byte c0 < 0xF0"
      "(if byte c0 = 0xE0 then 0xA0 else 0x80) \<le> byte c1"
      "byte c1 \<le> (if byte c0 = 0xED then 0x9F else 0xBF)"
      "0x80 \<le> byte c2" "byte c2 \<le> 0xBF"
      "r = (byte c0 mod 0x10) * 0x1000 + (byte c1 mod 0x40) * 0x40 + byte c2 mod 0x40" "n = 3"
  | (four) c1 c2 c3 cs' where "cs = c1 # c2 # c3 # cs'" "0xF0 \<le> byte c0" "byte c0 \<le> 0xF4"
      "(if byte c0 = 0xF0 then 0x90 else 0x80) \<le> byte c1"
      "byte c1 \<le> (if byte c0 = 0xF4 then 0x8F else 0xBF)"
      "0x80 \<le> byte c2" "byte c2 \<le> 0xBF" "0x80 \<le> byte c3" "byte c3 \<le> 0xBF"
      "r = (byte c0 mod 8) * 0x40000 + (byte c1 mod 0x40) * 0x1000
             + (byte c2 mod 0x40) * 0x40 + byte c3 mod 0x40" "n = 4"
proof -
  consider (1) "byte c0 < 0x80"
    | (2) "0x80 \<le> byte c0" "byte c0 < 0xC2 \<or> 0xF4 < byte c0"
    | (3) "0xC2 \<le> byte c0" "byte c0 < 0xE0"
    | (4) "0xE0 \<le> byte c0" "byte c0 < 0xF0"
    | (5) "0xF0 \<le> byte c0" "byte c0 \<le> 0xF4"
    by linarith
  then show thesis
  proof cases
    case a: 1
    from assms(1) have "r = byte c0" "n = 1"
      unfolding decode_ascii [OF a] by simp_all
    with a show thesis by (rule ascii)
  next
    case a: 2
    from assms(1) have "r = RuneError \<and> n = 1"
      unfolding decode_bad [OF a] by simp
    with assms(2) show thesis by simp
  next
    case a: 3
    show thesis
    proof (cases cs)
      case Nil
      from assms(1) have "r = RuneError \<and> n = 1"
        unfolding Nil decode_short2 [OF a] by simp
      with assms(2) show thesis by simp
    next
      case (Cons c1 cs')
      from assms(1) have e: "(if byte c1 < 0x80 \<or> 0xBF < byte c1 then (RuneError, 1)
           else ((byte c0 mod 0x20) * 0x40 + byte c1 mod 0x40, 2)) = (r, n)"
        unfolding Cons decode2 [OF a] .
      show thesis
      proof (cases "byte c1 < 0x80 \<or> 0xBF < byte c1")
        case True
        with e assms(2) show thesis by simp
      next
        case False
        with e have "r = (byte c0 mod 0x20) * 0x40 + byte c1 mod 0x40" "n = 2" by simp_all
        with False a Cons show thesis by (intro two [of c1 cs']) simp_all
      qed
    qed
  next
    case a: 4
    show thesis
    proof (cases "length cs < 2")
      case True
      from assms(1) have "r = RuneError \<and> n = 1"
        unfolding decode_short3 [OF a True] by simp
      with assms(2) show thesis by simp
    next
      case False
      then obtain c1 c2 cs' where cs: "cs = c1 # c2 # cs'"
        by (cases cs; cases "tl cs") auto
      let ?bad = "byte c1 < (if byte c0 = 0xE0 then 0xA0 else 0x80)
         \<or> (if byte c0 = 0xED then 0x9F else 0xBF) < byte c1
         \<or> byte c2 < 0x80 \<or> 0xBF < byte c2"
      from assms(1) have e: "(if ?bad then (RuneError, 1)
           else ((byte c0 mod 0x10) * 0x1000 + (byte c1 mod 0x40) * 0x40 + byte c2 mod 0x40, 3))
           = (r, n)"
        unfolding cs decode3 [OF a] .
      show thesis
      proof (cases ?bad)
        case True
        with e assms(2) show thesis by simp
      next
        case False
        with e have "r = (byte c0 mod 0x10) * 0x1000 + (byte c1 mod 0x40) * 0x40 + byte c2 mod 0x40"
          "n = 3" by simp_all
        with False a cs show thesis by (intro three [of c1 c2 cs']) simp_all
      qed
    qed
  next
    case a: 5
    show thesis
    proof (cases "length cs < 3")
      case True
      from assms(1) have "r = RuneError \<and> n = 1"
        unfolding decode_short4 [OF a True] by simp
      with assms(2) show thesis by simp
    next
      case False
      then obtain c1 c2 c3 cs' where cs: "cs = c1 # c2 # c3 # cs'"
        by (cases cs; cases "tl cs"; cases "tl (tl cs)") auto
      let ?bad = "byte c1 < (if byte c0 = 0xF0 then 0x90 else 0x80)
         \<or> (if byte c0 = 0xF4 then 0x8F else 0xBF) < byte c1
         \<or> byte c2 < 0x80 \<or> 0xBF < byte c2 \<or> byte c3 < 0x80 \<or> 0xBF < byte c3"
      from assms(1) have e: "(if ?bad then (RuneError, 1)
           else ((byte c0 mod 8) * 0x40000 + (byte c1 mod 0x40) * 0x1000
              + (byte c2 mod 0x40) * 0x40 + byte c3 mod 0x40, 4)) = (r, n)"
        unfolding cs decode4 [OF a] .
      show thesis
      proof (cases ?bad)
        case True
        with e assms(2) show thesis by simp
      next
        case False
        with e have "r = (byte c0 mod 8) * 0x40000 + (byte c1 mod 0x40) * 0x1000
              + (byte c2 mod 0x40) * 0x40 + byte c3 mod 0x40" "n = 4" by simp_all
        with False a cs show thesis by (intro four [of c1 c2 c3 cs']) simp_all
      qed
    qed
  qed
qed

lemma rune2:
  fixes p b :: nat
  assumes "0xC2 \<le> p" "p < 0xE0" "0x80 \<le> b" "b \<le> 0xBF"
  defines "r \<equiv> (p mod 0x20) * 0x40 + b mod 0x40"
  shows "0x7F < r" "r \<le> 0x7FF" "0xC0 + r div 0x40 = p" "0x80 + r mod 0x40 = b"
proof -
  define a where "a = p - 0xC0"
  define x where "x = b - 0x80"
  have p: "p = 0xC0 + a" and b: "b = 0x80 + x" and ax: "2 \<le> a" "a < 0x20" "x < 0x40"
    using assms(1-4) by (simp_all add: a_def x_def)
  have pm: "p mod 0x20 = a" using ax unfolding p by (simp add: mod_add_eq [symmetric])
  have bm: "b mod 0x40 = x" using ax unfolding b by (simp add: mod_add_eq [symmetric])
  show "0x7F < r" "r \<le> 0x7FF" "0xC0 + r div 0x40 = p" "0x80 + r mod 0x40 = b"
    using ax unfolding r_def pm bm unfolding p b by simp_all
qed

lemma rune3:
  fixes p b1 b2 :: nat
  assumes "0xE0 \<le> p" "p < 0xF0"
    and "(if p = 0xE0 then 0xA0 else 0x80) \<le> b1" "b1 \<le> (if p = 0xED then 0x9F else 0xBF)"
    and "0x80 \<le> b2" "b2 \<le> 0xBF"
  defines "r \<equiv> (p mod 0x10) * 0x1000 + (b1 mod 0x40) * 0x40 + b2 mod 0x40"
  shows "0x7FF < r" "r \<le> 0xFFFF" "\<not> (0xD800 \<le> r \<and> r \<le> 0xDFFF)"
    "0xE0 + r div 0x1000 = p" "0x80 + (r div 0x40) mod 0x40 = b1" "0x80 + r mod 0x40 = b2"
proof -
  define a where "a = p - 0xE0"
  define x where "x = b1 - 0x80"
  define y where "y = b2 - 0x80"
  have p: "p = 0xE0 + a" and b1: "b1 = 0x80 + x" and b2: "b2 = 0x80 + y"
    and ax: "a < 0x10" "x < 0x40" "y < 0x40" "a = 0 \<longrightarrow> 0x20 \<le> x" "a = 13 \<longrightarrow> x < 0x20"
    using assms(1-6) by (auto simp: a_def x_def y_def split: if_splits)
  have pm: "p mod 0x10 = a" using ax unfolding p by (simp add: mod_add_eq [symmetric])
  have b1m: "b1 mod 0x40 = x" using ax unfolding b1 by (simp add: mod_add_eq [symmetric])
  have b2m: "b2 mod 0x40 = y" using ax unfolding b2 by (simp add: mod_add_eq [symmetric])
  have r: "r = a * 0x1000 + x * 0x40 + y"
    unfolding r_def pm b1m b2m ..
  have d1: "r div 0x40 = a * 0x40 + x" using ax unfolding r by simp
  have d2: "r div 0x1000 = a" using ax unfolding r by simp
  have e: "r = (a * 0x40 + x) * 0x40 + y" unfolding r by simp
  have m1: "r mod 0x40 = y" unfolding e using ax by (simp only: mod_mult_self3 mod_less)
  have m2: "(a * 0x40 + x) mod 0x40 = x" using ax by simp
  show "0x7FF < r" using ax unfolding r by (cases "a = 0") simp_all
  show "r \<le> 0xFFFF" using ax unfolding r by simp
  show "\<not> (0xD800 \<le> r \<and> r \<le> 0xDFFF)"
  proof (cases "a = 13")
    case True
    with ax show ?thesis unfolding r by simp
  next
    case False
    then have "a < 13 \<or> 14 \<le> a" by arith
    with ax show ?thesis unfolding r by auto
  qed
  show "0xE0 + r div 0x1000 = p" unfolding d2 p ..
  show "0x80 + (r div 0x40) mod 0x40 = b1" unfolding d1 m2 b1 ..
  show "0x80 + r mod 0x40 = b2" unfolding m1 b2 ..
qed

lemma rune4:
  fixes p b1 b2 b3 :: nat
  assumes "0xF0 \<le> p" "p \<le> 0xF4"
    and "(if p = 0xF0 then 0x90 else 0x80) \<le> b1" "b1 \<le> (if p = 0xF4 then 0x8F else 0xBF)"
    and "0x80 \<le> b2" "b2 \<le> 0xBF" "0x80 \<le> b3" "b3 \<le> 0xBF"
  defines "r \<equiv> (p mod 8) * 0x40000 + (b1 mod 0x40) * 0x1000 + (b2 mod 0x40) * 0x40 + b3 mod 0x40"
  shows "0xFFFF < r" "r \<le> 0x10FFFF"
    "0xF0 + r div 0x40000 = p" "0x80 + (r div 0x1000) mod 0x40 = b1"
    "0x80 + (r div 0x40) mod 0x40 = b2" "0x80 + r mod 0x40 = b3"
proof -
  define a where "a = p - 0xF0"
  define x where "x = b1 - 0x80"
  define y where "y = b2 - 0x80"
  define z where "z = b3 - 0x80"
  have p: "p = 0xF0 + a" and b1: "b1 = 0x80 + x" and b2: "b2 = 0x80 + y" and b3: "b3 = 0x80 + z"
    and ax: "a \<le> 4" "x < 0x40" "y < 0x40" "z < 0x40" "a = 0 \<longrightarrow> 0x10 \<le> x" "a = 4 \<longrightarrow> x < 0x10"
    using assms(1-8) by (auto simp: a_def x_def y_def z_def split: if_splits)
  have pm: "p mod 8 = a" using ax unfolding p by (simp add: mod_add_eq [symmetric])
  have b1m: "b1 mod 0x40 = x" using ax unfolding b1 by (simp add: mod_add_eq [symmetric])
  have b2m: "b2 mod 0x40 = y" using ax unfolding b2 by (simp add: mod_add_eq [symmetric])
  have b3m: "b3 mod 0x40 = z" using ax unfolding b3 by (simp add: mod_add_eq [symmetric])
  have r: "r = a * 0x40000 + x * 0x1000 + y * 0x40 + z"
    unfolding r_def pm b1m b2m b3m ..
  have d1: "r div 0x40 = a * 0x1000 + x * 0x40 + y" using ax unfolding r by simp
  have d2: "r div 0x1000 = a * 0x40 + x" using ax unfolding r by simp
  have d3: "r div 0x40000 = a" using ax unfolding r by simp
  have e: "r = (a * 0x1000 + x * 0x40 + y) * 0x40 + z" unfolding r by simp
  have m0: "r mod 0x40 = z" unfolding e using ax by (simp only: mod_mult_self3 mod_less)
  have e1: "a * 0x1000 + x * 0x40 + y = (a * 0x40 + x) * 0x40 + y" by simp
  have m1: "(a * 0x1000 + x * 0x40 + y) mod 0x40 = y"
    unfolding e1 using ax by (simp only: mod_mult_self3 mod_less)
  have m2: "(a * 0x40 + x) mod 0x40 = x" using ax by simp
  show "0xFFFF < r" using ax unfolding r by (cases "a = 0") simp_all
  show "r \<le> 0x10FFFF"
  proof (cases "a = 4")
    case True
    with ax show ?thesis unfolding r by simp
  next
    case False
    with ax have "a \<le> 3" by simp
    with ax show ?thesis unfolding r by simp
  qed
  show "0xF0 + r div 0x40000 = p" unfolding d3 p ..
  show "0x80 + (r div 0x1000) mod 0x40 = b1" unfolding d2 m2 b1 ..
  show "0x80 + (r div 0x40) mod 0x40 = b2" unfolding d1 m1 b2 ..
  show "0x80 + r mod 0x40 = b3" unfolding m0 b3 ..
qed

lemma utf8_Encode_Decode:
  assumes "utf8_DecodeRune (c0 # cs) = (r, n)" and "\<not> (r = RuneError \<and> n = 1)"
  shows "utf8_EncodeRune r = take n (c0 # cs)"
  using assms
proof (cases rule: utf8_DecodeRune_cases)
  case ascii
  then show ?thesis by (simp add: utf8_EncodeRune_def char_of_byte)
next
  case (two c1 cs')
  note f = rune2 [OF two(2-5), folded two(6)]
  have "utf8_EncodeRune r = [char_of (0xC0 + r div 0x40), char_of (0x80 + r mod 0x40)]"
    using f(1,2) by (simp add: utf8_EncodeRune_def)
  then show ?thesis
    unfolding f(3,4) char_of_byte two(1,7) by simp
next
  case (three c1 c2 cs')
  note f = rune3 [OF three(2-7), folded three(8)]
  have "utf8_EncodeRune r = [char_of (0xE0 + r div 0x1000), char_of (0x80 + (r div 0x40) mod 0x40),
          char_of (0x80 + r mod 0x40)]"
  proof -
    have c: "(0x10FFFF < r \<or> (0xD800 \<le> r \<and> r \<le> 0xDFFF)) = False"
      using f(2,3) by auto
    show ?thesis
      unfolding utf8_EncodeRune_def Let_def c using f(1,2) by simp
  qed
  then show ?thesis
    unfolding f(4,5,6) char_of_byte three(1,9) by simp
next
  case (four c1 c2 c3 cs')
  note f = rune4 [OF four(2-9), folded four(10)]
  have "utf8_EncodeRune r = [char_of (0xF0 + r div 0x40000), char_of (0x80 + (r div 0x1000) mod 0x40),
          char_of (0x80 + (r div 0x40) mod 0x40), char_of (0x80 + r mod 0x40)]"
  proof -
    have c: "(0x10FFFF < r \<or> (0xD800 \<le> r \<and> r \<le> 0xDFFF)) = False"
      using f(1,2) by auto
    show ?thesis
      unfolding utf8_EncodeRune_def Let_def c using f(1,2) by simp
  qed
  then show ?thesis
    unfolding f(3,4,5,6) char_of_byte four(1,11) by simp
qed

lemma utf8_DecodeRune_prefix:
  assumes "utf8_DecodeRune (c0 # cs) = (r, n)" and "\<not> (r = RuneError \<and> n = 1)"
  shows "utf8_DecodeRune (take n (c0 # cs) @ ys) = (r, n)"
  using assms
proof (cases rule: utf8_DecodeRune_cases)
  case ascii
  then show ?thesis by (simp add: decode_ascii)
next
  case (two c1 cs')
  then show ?thesis by (simp add: decode2)
next
  case (three c1 c2 cs')
  then show ?thesis by (simp add: decode3 split: if_splits)
next
  case (four c1 c2 c3 cs')
  then show ?thesis by (simp add: decode4 split: if_splits)
qed

lemma utf8_DecodeRune_width:
  assumes "utf8_DecodeRune (c0 # cs) = (r, n)" and "\<not> (r = RuneError \<and> n = 1)"
  shows "1 \<le> n \<and> n - 1 \<le> length cs"
  using assms by (cases rule: utf8_DecodeRune_cases) simp_all

lemma utf8_DecodeRune_high_bytes:
  assumes "utf8_DecodeRune (c0 # cs) = (r, n)" and "\<not> (r = RuneError \<and> n = 1)"
    and "0x80 \<le> byte c0"
  shows "\<forall>b \<in> set (take n (c0 # cs)). 0x80 \<le> byte b"
  using assms by (cases rule: utf8_DecodeRune_cases) (simp_all split: if_splits)

lemma split_rune:
  assumes "utf8_DecodeRune (c0 # cs) = (r, n)" and "\<not> (r = RuneError \<and> n = 1)"
  shows "c0 # take (n - 1) cs = take n (c0 # cs)"
  using utf8_DecodeRune_width [OF assms] by (cases n) simp_all

lemma hexval_hex: "n < 16 \<Longrightarrow> hexval (hex n) = Some n"
proof -
  assume "n < 16"
  then have "n \<in> {0, 1, 2, 3, 4, 5, 6, 7, 8, 9, 10, 11, 12, 13, 14, 15}"
    by (auto simp del: One_nat_def) arith
  then show ?thesis
    by (auto simp: hex_def hexval_def isDigit_def byte_def)
qed

lemma getu4_escape:
  "a < 16 \<Longrightarrow> b < 16 \<Longrightarrow> c < 16 \<Longrightarrow> d < 16 \<Longrightarrow>
   getu4 (backslash # CHR ''u'' # hex a # hex b # hex c # hex d # Y)
     = Some (a * 0x1000 + b * 0x100 + c * 0x10 + d)"
  by (simp add: hexval_hex)

lemma hex_digits: "hex 0 = CHR ''0''" "hex 2 = CHR ''2''" "hex 15 = CHR ''f''" "hex 13 = CHR ''d''"
  by (simp_all add: hex_def)

lemma encode_ascii: "byte c < 0x80 \<Longrightarrow> utf8_EncodeRune (byte c) = [c]"
  by (simp add: utf8_EncodeRune_def char_of_byte)

lemma unquote_plain:
  "c \<noteq> backslash \<Longrightarrow> c \<noteq> dquote \<Longrightarrow> 0x20 \<le> byte c \<Longrightarrow> byte c < 0x80 \<Longrightarrow>
   unquote (c # Y) = map_option ((#) c) (unquote Y)"
  by simp

lemma unquote_short_escape:
  "unquote (backslash # dquote # Y) = map_option ((#) dquote) (unquote Y)"
  "unquote (backslash # backslash # Y) = map_option ((#) backslash) (unquote Y)"
  "unquote (backslash # CHR ''b'' # Y) = map_option ((#) (CHR 0x08)) (unquote Y)"
  "unquote (backslash # CHR ''f'' # Y) = map_option ((#) (CHR 0x0C)) (unquote Y)"
  "unquote (backslash # CHR ''n'' # Y) = map_option ((#) (CHR 0x0A)) (unquote Y)"
  "unquote (backslash # CHR ''r'' # Y) = map_option ((#) (CHR 0x0D)) (unquote Y)"
  "unquote (backslash # CHR ''t'' # Y) = map_option ((#) (CHR 0x09)) (unquote Y)"
  by (simp_all add: dquote_def backslash_def)

lemma unquote_u_escape:
  assumes "a < 16" "b < 16" "c < 16" "d < 16"
    and "\<not> utf16_IsSurrogate (a * 0x1000 + b * 0x100 + c * 0x10 + d)"
  shows "unquote (backslash # CHR ''u'' # hex a # hex b # hex c # hex d # Y)
           = map_option ((@) (utf8_EncodeRune (a * 0x1000 + b * 0x100 + c * 0x10 + d))) (unquote Y)"
proof -
  have g: "getu4 (backslash # CHR ''u'' # hex a # hex b # hex c # hex d # Y)
             = Some (a * 0x1000 + b * 0x100 + c * 0x10 + d)"
    using assms(1-4) by (rule getu4_escape)
  have u: "CHR ''u'' \<noteq> dquote" "CHR ''u'' \<noteq> backslash"
    by (simp_all add: dquote_def backslash_def)
  show ?thesis
    using assms by (subst unquote.simps) (simp add: hexval_hex u)
qed

lemma unquote_escapeByte:
  assumes "byte c < 0x80"
  shows "unquote (escapeByte c @ Y) = map_option ((#) c) (unquote Y)"
proof -
  consider "c = backslash" | "c = dquote" | "c = CHR 0x08" | "c = CHR 0x0C" | "c = CHR 0x0A"
    | "c = CHR 0x0D" | "c = CHR 0x09"
    | "c \<noteq> backslash" "c \<noteq> dquote" "c \<noteq> CHR 0x08" "c \<noteq> CHR 0x0C" "c \<noteq> CHR 0x0A"
      "c \<noteq> CHR 0x0D" "c \<noteq> CHR 0x09"
    by blast
  then show ?thesis
  proof cases
    case 8
    have d: "byte c div 16 < 16" "byte c mod 16 < 16"
      using assms by simp_all
    have v: "0 * 0x1000 + 0 * 0x100 + (byte c div 16) * 0x10 + byte c mod 16 = byte c"
      by simp
    have s: "\<not> utf16_IsSurrogate (byte c)"
      using assms by (simp add: utf16_IsSurrogate_def)
    have "unquote (backslash # CHR ''u'' # hex 0 # hex 0 # hex (byte c div 16)
             # hex (byte c mod 16) # Y) = map_option ((@) [c]) (unquote Y)"
      using unquote_u_escape [of 0 0 "byte c div 16" "byte c mod 16" Y] d s assms
      unfolding v by (simp add: encode_ascii)
    moreover have "((@) [c]) = ((#) c)" by auto
    ultimately show ?thesis
      using 8 by (simp add: escapeByte_def hex_digits)
  qed (simp_all add: escapeByte_def unquote_short_escape dquote_def backslash_def)
qed

lemma map_option_append:
  "map_option ((@) xs) (map_option ((@) ys) z) = map_option ((@) (xs @ ys)) z"
  by (cases z) simp_all

lemma map_option_cons:
  "map_option ((#) x) (map_option ((@) ys) z) = map_option ((@) (x # ys)) z"
  by (cases z) simp_all

lemma map_option_nil: "map_option ((@) []) z = z"
  by (cases z) simp_all

lemma take_drop_rune:
  assumes "1 \<le> n"
  shows "take n (c # cs) @ drop (n - 1) cs = c # cs"
  using assms by (cases n) simp_all

lemma appendString_loop_ascii:
  "byte c < 0x80 \<Longrightarrow>
   appendString_loop (c # cs) =
     (if htmlSafeSet c then c # appendString_loop cs else escapeByte c @ appendString_loop cs)"
  by (subst appendString_loop.simps) simp

lemma appendString_loop_rune:
  assumes "\<not> byte c < 0x80" and "utf8_DecodeRune (c # cs) = (r, n)"
    and "\<not> (r = RuneError \<and> n = 1)"
  shows "appendString_loop (c # cs) =
     (if r = 0x2028 \<or> r = 0x2029 then
        [backslash, CHR ''u'', CHR ''2'', CHR ''0'', CHR ''2'', hex (r mod 16)]
          @ appendString_loop (drop (n - 1) cs)
      else c # take (n - 1) cs @ appendString_loop (drop (n - 1) cs))"
  using assms(1,3)
  by (subst appendString_loop.simps)
    (simp del: utf8_DecodeRune.simps add: assms(2) RuneError_def)

lemma utf8_ValidString_Cons:
  assumes "utf8_DecodeRune (c # cs) = (r, n)"
  shows "utf8_ValidString (c # cs)
           = (\<not> (r = RuneError \<and> n = 1) \<and> utf8_ValidString (drop (n - 1) cs))"
  by (subst utf8_ValidString.simps) (simp del: utf8_DecodeRune.simps add: assms)

lemma unquote_rune:
  assumes "\<not> byte c < 0x80" and "utf8_DecodeRune (c # Z) = (r, n)"
  shows "unquote (c # Z) = map_option ((@) (utf8_EncodeRune r)) (unquote (drop (n - 1) Z))"
proof -
  have c: "c \<noteq> backslash" "c \<noteq> dquote" "\<not> byte c < 0x20"
    using assms(1) by (auto simp: backslash_def dquote_def byte_def)
  show ?thesis
    by (subst unquote.simps) (simp del: utf8_DecodeRune.simps add: c assms)
qed

lemma unquote_appendString_loop:
  "utf8_ValidString s \<Longrightarrow> unquote (appendString_loop s @ Y) = map_option ((@) s) (unquote Y)"
proof (induction "length s" arbitrary: s rule: less_induct)
  case less
  note [simp del] = utf8_DecodeRune.simps unquote.simps appendString_loop.simps
    utf8_ValidString.simps
  show ?case
  proof (cases s)
    case Nil
    then show ?thesis by (simp add: map_option_nil appendString_loop.simps)
  next
    case (Cons c cs)
    obtain r n where d: "utf8_DecodeRune (c # cs) = (r, n)"
      by (cases "utf8_DecodeRune (c # cs)")
    from less.prems have ok: "\<not> (r = RuneError \<and> n = 1)"
      and tl_valid: "utf8_ValidString (drop (n - 1) cs)"
      unfolding Cons utf8_ValidString_Cons [OF d] by simp_all
    have IH: "unquote (appendString_loop (drop (n - 1) cs) @ Y)
                = map_option ((@) (drop (n - 1) cs)) (unquote Y)"
      using less.hyps [of "drop (n - 1) cs"] tl_valid Cons by simp
    note w = utf8_DecodeRune_width [OF d ok]
    show ?thesis
    proof (cases "byte c < 0x80")
      case True
      with d have n: "n = 1" by (simp add: decode_ascii)
      with IH have IH': "unquote (appendString_loop cs @ Y) = map_option ((@) cs) (unquote Y)"
        by simp
      show ?thesis
      proof (cases "htmlSafeSet c")
        case safe: True
        then have "unquote (c # appendString_loop cs @ Y)
                     = map_option ((#) c) (unquote (appendString_loop cs @ Y))"
          by (intro unquote_plain) (simp_all add: htmlSafeSet_def)
        then show ?thesis
          unfolding Cons appendString_loop_ascii [OF True] IH' using safe
          by (simp add: map_option_cons)
      next
        case unsafe: False
        show ?thesis
          unfolding Cons appendString_loop_ascii [OF True]
          using unsafe unquote_escapeByte [OF True, of "appendString_loop cs @ Y"]
          by (simp add: IH' map_option_cons)
      qed
    next
      case False
      have enc: "utf8_EncodeRune r = take n (c # cs)"
        using d ok by (rule utf8_Encode_Decode)
      have "take n (c # cs) @ drop (n - 1) cs = c # cs"
        using w by (intro take_drop_rune) simp
      then have whole: "take n (c # cs) @ drop (n - Suc 0) cs = c # cs"
        by simp
      show ?thesis
      proof (cases "r = 0x2028 \<or> r = 0x2029")
        case True
        then have m: "r mod 16 < 16" "2 * 0x1000 + 0 * 0x100 + 2 * 0x10 + r mod 16 = r"
          by auto
        have s: "\<not> utf16_IsSurrogate r"
          using True by (auto simp: utf16_IsSurrogate_def)
        have "unquote (backslash # CHR ''u'' # hex 2 # hex 0 # hex 2 # hex (r mod 16)
                 # appendString_loop (drop (n - 1) cs) @ Y)
              = map_option ((@) (utf8_EncodeRune r))
                  (unquote (appendString_loop (drop (n - 1) cs) @ Y))"
          using unquote_u_escape [of 2 0 2 "r mod 16" "appendString_loop (drop (n - 1) cs) @ Y"]
            m(1) s unfolding m(2) by simp
        then show ?thesis
          unfolding Cons appendString_loop_rune [OF False d ok] IH enc using True
          by (simp add: hex_digits map_option_append whole)
      next
        case other: False
        let ?Y = "appendString_loop (drop (n - 1) cs) @ Y"
        have sp: "c # take (n - 1) cs = take n (c # cs)"
          using w by (cases n) simp_all
        have p: "utf8_DecodeRune (c # take (n - 1) cs @ ?Y) = (r, n)"
          using utf8_DecodeRune_prefix [OF d ok, of ?Y] unfolding sp [symmetric] by simp
        have l: "drop (n - 1) (take (n - 1) cs @ ?Y) = ?Y"
          using w by simp
        have "unquote (c # take (n - 1) cs @ ?Y)
                = map_option ((@) (utf8_EncodeRune r)) (unquote ?Y)"
          using unquote_rune [OF False p] unfolding l .
        then show ?thesis
          unfolding Cons appendString_loop_rune [OF False d ok] IH enc using other
          by (simp add: map_option_append whole)
      qed
    qed
  qed
qed

lemma scanner_back_inString:
  "step st = stateInString \<Longrightarrow> st\<lparr>step := stateInString, scan_lit := X\<rparr> = st\<lparr>scan_lit := X\<rparr>"
  by (cases st) simp

lemma scan_plain_byte:
  assumes "step st = stateInString" "c \<noteq> dquote" "c \<noteq> backslash" "0x20 \<le> byte c"
  shows "checkValid_loop st (c # rest) = checkValid_loop (st\<lparr>scan_lit := scan_lit st @ [c]\<rparr>) rest"
  using assms by (simp add: scan_step_def)

lemma scan_plain_bytes:
  "step st = stateInString \<Longrightarrow>
   \<forall>b \<in> set xs. b \<noteq> dquote \<and> b \<noteq> backslash \<and> 0x20 \<le> byte b \<Longrightarrow>
   checkValid_loop st (xs @ rest) = checkValid_loop (st\<lparr>scan_lit := scan_lit st @ xs\<rparr>) rest"
proof (induction xs arbitrary: st)
  case Nil
  then show ?case by simp
next
  case (Cons x xs)
  then show ?case by (simp del: checkValid_loop.simps add: scan_plain_byte)
qed

lemma scan_short_escape:
  assumes "step st = stateInString" "e \<in> set ''bfnrt/'' \<or> e = backslash \<or> e = dquote"
  shows "checkValid_loop st (backslash # e # rest)
           = checkValid_loop (st\<lparr>scan_lit := scan_lit st @ [backslash, e]\<rparr>) rest"
  using assms
  by (simp add: scan_step_def dquote_def backslash_def scanner_back_inString)

lemma scan_u_escape:
  assumes "step st = stateInString"
    and "hexval h1 \<noteq> None" "hexval h2 \<noteq> None" "hexval h3 \<noteq> None" "hexval h4 \<noteq> None"
  shows "checkValid_loop st (backslash # CHR ''u'' # h1 # h2 # h3 # h4 # rest)
           = checkValid_loop
               (st\<lparr>scan_lit := scan_lit st @ [backslash, CHR ''u'', h1, h2, h3, h4]\<rparr>) rest"
  using assms
  by (simp add: scan_step_def hexStep_def dquote_def backslash_def scanner_back_inString)

lemma scan_escapeByte:
  assumes "step st = stateInString" "byte c < 0x80"
  shows "checkValid_loop st (escapeByte c @ rest)
           = checkValid_loop (st\<lparr>scan_lit := scan_lit st @ escapeByte c\<rparr>) rest"
proof -
  have h: "hexval (hex n) \<noteq> None" if "n < 16" for n
    using hexval_hex [OF that] by simp
  have d: "byte c div 16 < 16" "byte c mod 16 < 16"
    using assms(2) by simp_all
  have z: "hexval (CHR ''0'') \<noteq> None"
    by (simp add: hexval_def isDigit_def byte_def)
  show ?thesis
    unfolding escapeByte_def
    using scan_short_escape [OF assms(1), of _ rest]
      scan_u_escape [OF assms(1) z z h [OF d(1)] h [OF d(2)], of rest]
    by simp
qed

lemma appendString_loop_invalid:
  assumes "\<not> byte c < 0x80" and "utf8_DecodeRune (c # cs) = (RuneError, 1)"
  shows "appendString_loop (c # cs) =
     [backslash, CHR ''u'', CHR ''f'', CHR ''f'', CHR ''f'', CHR ''d''] @ appendString_loop cs"
  using assms(1)
  by (subst appendString_loop.simps) (simp del: utf8_DecodeRune.simps add: assms(2))

lemma hexval_examples:
  "hexval (CHR ''f'') \<noteq> None" "hexval (CHR ''d'') \<noteq> None" "hexval (CHR ''2'') \<noteq> None"
  "hexval (CHR ''0'') \<noteq> None"
  by (simp_all add: hexval_def isDigit_def byte_def)

lemma htmlSafeSet_plain:
  "htmlSafeSet c \<Longrightarrow> c \<noteq> dquote \<and> c \<noteq> backslash \<and> 0x20 \<le> byte c"
  by (simp add: htmlSafeSet_def)

lemma high_byte_plain: "0x80 \<le> byte b \<Longrightarrow> b \<noteq> dquote \<and> b \<noteq> backslash \<and> 0x20 \<le> byte b"
  by (auto simp: dquote_def backslash_def byte_def)

lemma scan_appendString_loop:
  "step st = stateInString \<Longrightarrow>
   checkValid_loop st (appendString_loop s @ rest)
     = checkValid_loop (st\<lparr>scan_lit := scan_lit st @ appendString_loop s\<rparr>) rest"
proof (induction "length s" arbitrary: s st rule: less_induct)
  case less
  note [simp del] = utf8_DecodeRune.simps appendString_loop.simps checkValid_loop.simps
  show ?case
  proof (cases s)
    case Nil
    then show ?thesis by (simp add: appendString_loop.simps)
  next
    case (Cons c cs)
    have IH: "checkValid_loop st' (appendString_loop t @ rest)
                = checkValid_loop (st'\<lparr>scan_lit := scan_lit st' @ appendString_loop t\<rparr>) rest"
      if "length t \<le> length cs" "step st' = stateInString" for t st'
      using less.hyps [of t st'] that Cons by simp
    obtain r n where d: "utf8_DecodeRune (c # cs) = (r, n)"
      by (cases "utf8_DecodeRune (c # cs)")
    show ?thesis
    proof (cases "byte c < 0x80")
      case True
      show ?thesis
      proof (cases "htmlSafeSet c")
        case safe: True
        show ?thesis
          unfolding Cons appendString_loop_ascii [OF True]
          using safe htmlSafeSet_plain [OF safe] less.prems
          by (simp add: scan_plain_byte IH)
      next
        case unsafe: False
        show ?thesis
          unfolding Cons appendString_loop_ascii [OF True]
          using unsafe less.prems
          by (simp add: scan_escapeByte [OF _ True] IH)
      qed
    next
      case False
      show ?thesis
      proof (cases "r = RuneError \<and> n = 1")
        case True
        with d have d': "utf8_DecodeRune (c # cs) = (RuneError, 1)" by simp
        show ?thesis
          unfolding Cons appendString_loop_invalid [OF False d']
          using less.prems
          by (simp add: scan_u_escape hexval_examples IH)
      next
        case ok: False
        note w = utf8_DecodeRune_width [OF d ok]
        have len: "length (drop (n - Suc 0) cs) \<le> length cs" by simp
        show ?thesis
        proof (cases "r = 0x2028 \<or> r = 0x2029")
          case True
          then have "r mod 16 < 16" by auto
          then have h: "hexval (hex (r mod 16)) \<noteq> None"
            using hexval_hex [of "r mod 16"] by simp
          show ?thesis
            unfolding Cons appendString_loop_rune [OF False d ok]
            using True less.prems
            by (simp add: scan_u_escape hexval_examples h IH [OF len])
        next
          case other: False
          have sp: "c # take (n - 1) cs = take n (c # cs)"
            using w by (cases n) simp_all
          have hi: "\<forall>b \<in> set (take n (c # cs)). b \<noteq> dquote \<and> b \<noteq> backslash \<and> 0x20 \<le> byte b"
            using utf8_DecodeRune_high_bytes [OF d ok] False high_byte_plain by auto
          have "checkValid_loop st (take n (c # cs) @ appendString_loop (drop (n - 1) cs) @ rest)
                  = checkValid_loop (st\<lparr>scan_lit := scan_lit st @ take n (c # cs)\<rparr>)
                      (appendString_loop (drop (n - 1) cs) @ rest)"
            using less.prems hi by (rule scan_plain_bytes)
          also have "\<dots> = checkValid_loop
                (st\<lparr>scan_lit := scan_lit st @ take n (c # cs) @ appendString_loop (drop (n - 1) cs)\<rparr>)
                rest"
            using IH [OF len, of "st\<lparr>scan_lit := scan_lit st @ take n (c # cs)\<rparr>"] less.prems
            by simp
          finally show ?thesis
            unfolding Cons appendString_loop_rune [OF False d ok] using other
            by (simp add: sp [symmetric])
        qed
      qed
    qed
  qed
qed

lemma scan_data_prefix:
  "checkValid_loop scanner_reset (''{\"data\":\"'' @ X) = checkValid_loop (inData []) X"
  by (simp add: scan_eval inData_def)

lemma scan_data_suffix:
  assumes "unquote l = Some s"
  shows "checkValid_loop (inData l) ''\"}''
           = Inr \<lparr>step = stateEndTop, endTop = True, parseState = [], scan_err = None,
                  scan_lit = l, scan_last = JObject [(''data'', JString s)]\<rparr>"
  by (simp add: scan_eval inData_def assms)

lemma checkValid_marshalled_Message:
  assumes "utf8_ValidString s"
  shows "checkValid (''{\"data\":'' @ appendString s @ ''}'') = Inr (JObject [(''data'', JString s)])"
proof -
  have u: "unquote (appendString_loop s) = Some s"
    using unquote_appendString_loop [OF assms, of "[]"] by simp
  have t: "''{\"data\":'' @ appendString s @ ''}'' = ''{\"data\":\"'' @ appendString_loop s @ ''\"}''"
    by (simp add: appendString_def dquote_def)
  have i: "(inData [])\<lparr>scan_lit := scan_lit (inData []) @ appendString_loop s\<rparr>
             = inData (appendString_loop s)"
    by (simp add: inData_def)
  have "checkValid_loop scanner_reset (''{\"data\":'' @ appendString s @ ''}'')
          = checkValid_loop (inData (appendString_loop s)) ''\"}''"
    unfolding t scan_data_prefix
    using scan_appendString_loop [of "inData []" s "''\"}''"] i
    by (simp add: inData_def)
  then show ?thesis
    unfolding checkValid_def scan_data_suffix [OF u]
    by (simp add: scanner_eof_def)
qed

lemma Marshal_invalid_byte:
  "json_Marshal_Message \<lparr>Data = [CHR 0xFF]\<rparr>
     = Inr [CHR ''{'', dquote, CHR ''d'', CHR ''a'', CHR ''t'', CHR ''a'', dquote, CHR '':'', dquote,
            backslash, CHR ''u'', CHR ''f'', CHR ''f'', CHR ''f'', CHR ''d'', dquote, CHR ''}'']"
  by (simp add: json_Marshal_Message_def appendString_def byte_def RuneError_def dquote_def)

lemma Unmarshal_replacement:
  "json_Unmarshal decode_Message \<lparr>Data = []\<rparr>
     [CHR ''{'', dquote, CHR ''d'', CHR ''a'', CHR ''t'', CHR ''a'', dquote, CHR '':'', dquote,
      backslash, CHR ''u'', CHR ''f'', CHR ''f'', CHR ''f'', CHR ''d'', dquote, CHR ''}'']
     = Inr \<lparr>Data = [CHR 0xEF, CHR 0xBF, CHR 0xBD]\<rparr>"
  by (simp add: json_Unmarshal_def scan_eval utf16_IsSurrogate_def utf8_EncodeRune_def
      RuneError_def char_of_eq_iff decode_Message_def fieldMatch_def saveError_def)

lemma valid_payload: "utf8_ValidString ''payload''"
  by (simp add: byte_def RuneError_def)

section \<open>The claims\<close>

text \<open>
  C1. \<^verbatim>\<open>CreateTopic\<close> succeeds if and only if the HTTP response has status 201.
  Whatever \<^verbatim>\<open>Post\<close> returns for the marshalled topic: the result is no error
  exactly when a response came back with status 201; a response with any other status
  gives the error that carries that status code; an error of \<^verbatim>\<open>Post\<close> (no
  response, so no status) is returned as it is.
\<close>

theorem C1_CreateTopic_status:
  assumes "json_Marshal_Topic topic = Inr topicJson"
    and "client_Post urlSyntax cli (BaseURL cli @ ''/topics'') ''application/json'' topicJson log
           = (r, log')"
  shows "(fst (CreateTopic urlSyntax cli topic log) = None
            \<longleftrightarrow> (\<exists>resp. r = Inr resp \<and> StatusCode resp = 201))
       \<and> (\<forall>resp. r = Inr resp \<and> StatusCode resp \<noteq> 201 \<longrightarrow>
            fst (CreateTopic urlSyntax cli topic log)
              = Some (Errorf_d ''error creating topic: expected status code 201, got ''
                        (StatusCode resp)))
       \<and> (\<forall>err. r = Inl err \<longrightarrow> fst (CreateTopic urlSyntax cli topic log) = Some err)
       \<and> snd (CreateTopic urlSyntax cli topic log) = log'"
  using assms by (cases r) (simp_all add: CreateTopic_def)

theorem C1_CreateTopic_status_witness:
  "fst (CreateTopic anyURL \<lparr>BaseURL = ''http://h'', HttpClient = fixedServer 201 []\<rparr>
          \<lparr>Name = ''t'', Type = []\<rparr> []) = None
   \<and> fst (CreateTopic anyURL \<lparr>BaseURL = ''http://h'', HttpClient = fixedServer 404 []\<rparr>
          \<lparr>Name = ''t'', Type = []\<rparr> [])
       = Some (Errorf_d ''error creating topic: expected status code 201, got '' 404)
   \<and> fst (CreateTopic anyURL \<lparr>BaseURL = ''http://h'', HttpClient = brokenTransport\<rparr>
          \<lparr>Name = ''t'', Type = []\<rparr> [])
       = Some (TransportError ''connection refused'')"
proof -
  let ?t = "\<lparr>Name = ''t'', Type = []\<rparr>"
  let ?req = "\<lparr>Method = ''POST'', URL = ''http://h/topics'',
              Header = [''Content-Type'' \<mapsto> [''application/json'']],
              ReqBody = Some (''{\"name\":\"t\",\"type\":\"\"}'')\<rparr>"
  have m: "json_Marshal_Topic ?t = Inr ''{\"name\":\"t\",\"type\":\"\"}''"
    by (simp add: json_Marshal_Topic_def appendString_def htmlSafeSet_def byte_def dquote_def backslash_def)
  have p: "client_Post anyURL \<lparr>BaseURL = ''http://h'', HttpClient = fixedServer c []\<rparr>
             (BaseURL \<lparr>BaseURL = ''http://h'', HttpClient = fixedServer c []\<rparr> @ ''/topics'')
             ''application/json'' ''{\"name\":\"t\",\"type\":\"\"}'' []
           = (Inr \<lparr>StatusCode = c, Body = [], BodyErr = None\<rparr>, [?req])" for c
    by (simp add: http_eval)
  have q: "client_Post anyURL \<lparr>BaseURL = ''http://h'', HttpClient = brokenTransport\<rparr>
             (BaseURL \<lparr>BaseURL = ''http://h'', HttpClient = brokenTransport\<rparr> @ ''/topics'')
             ''application/json'' ''{\"name\":\"t\",\"type\":\"\"}'' []
           = (Inl (TransportError ''connection refused''), [?req])"
    by (simp add: http_eval)
  show ?thesis
    using C1_CreateTopic_status [OF m p [of 201]] C1_CreateTopic_status [OF m p [of 404]]
      C1_CreateTopic_status [OF m q]
    by simp
qed

text \<open>
  C2. For a topic name of length 0 or of more than 255 bytes, \<^verbatim>\<open>TopicExists\<close> and
  \<^verbatim>\<open>EnsureTopicExists\<close> return the validation error (wrapped as
  \<^verbatim>\<open>invalid topic: ...\<close>) and leave the log of issued requests as it was: no
  request is handed to the HTTP client.
\<close>

theorem C2_invalid_topic_no_request:
  assumes "length topic = 0 \<or> 255 < length topic"
  shows "TopicExists urlSyntax cli topic log
           = (Inl (Errorf_v ''invalid topic: ''
                     (if topic = [] then ErrRequired else ErrLength 1 255)), log)
       \<and> EnsureTopicExists urlSyntax cli topic log
           = (Some (Errorf_v ''invalid topic: ''
                      (if topic = [] then ErrRequired else ErrLength 1 255)), log)"
  using validate_topic_Some [OF assms]
  by (simp add: TopicExists_def EnsureTopicExists_def)

theorem C2_invalid_topic_no_request_witness:
  "TopicExists anyURL (exampleClient 200 []) [] [] = (Inl (Errorf_v ''invalid topic: '' ErrRequired), [])
   \<and> EnsureTopicExists anyURL (exampleClient 200 []) [] []
       = (Some (Errorf_v ''invalid topic: '' ErrRequired), [])
   \<and> TopicExists anyURL (exampleClient 200 []) (replicate 256 (CHR ''a'')) []
       = (Inl (Errorf_v ''invalid topic: '' (ErrLength 1 255)), [])
   \<and> EnsureTopicExists anyURL (exampleClient 200 []) (replicate 256 (CHR ''a'')) []
       = (Some (Errorf_v ''invalid topic: '' (ErrLength 1 255)), [])"
  using C2_invalid_topic_no_request [of "[]" anyURL "exampleClient 200 []" "[]"]
    C2_invalid_topic_no_request [of "replicate 256 (CHR ''a'')" anyURL "exampleClient 200 []" "[]"]
  by simp

text \<open>
  C3. For a topic name \<open>t\<close> of 1 to 255 bytes: if \<^verbatim>\<open>ListTopics\<close> returns a list
  that contains \<open>t\<close>, then \<^verbatim>\<open>EnsureTopicExists\<close> returns no error and issues
  exactly one request, the GET of \<^verbatim>\<open>{base}/topics\<close>; no create request follows.
\<close>

theorem C3_existing_topic_one_request:
  assumes "1 \<le> length t" and "length t \<le> 255"
    and "ListTopics urlSyntax cli log = (Inr topics, log')"
    and "t \<in> set topics"
  shows "EnsureTopicExists urlSyntax cli t log = (None, log')
       \<and> log' = log @ [\<lparr>Method = ''GET'', URL = BaseURL cli @ ''/topics'', Header = Map.empty,
                          ReqBody = None\<rparr>]"
proof -
  have v: "validation_Validate t topicRules = None"
    using assms(1,2) by (simp add: validate_topic_None)
  have "EnsureTopicExists urlSyntax cli t log = (None, log')"
    using v assms(3,4) by (simp add: EnsureTopicExists_def TopicExists_def rangeTopics_iff)
  with ListTopics_Inr [OF assms(3)] show ?thesis by simp
qed

theorem C3_existing_topic_one_request_witness:
  "EnsureTopicExists anyURL (exampleClient 200 ''{\"topics\":[\"a\",\"b\"]}'') ''b'' []
     = (None, [\<lparr>Method = ''GET'', URL = ''http://h/topics'', Header = Map.empty,
                 ReqBody = None\<rparr>])"
  using C3_existing_topic_one_request [of "''b''" anyURL _ "[]", OF _ _ ListTopics_example]
  by simp



text \<open>
  C5. \<^verbatim>\<open>PullMessage\<close> never looks at the status code: rewriting the status codes of
  all responses by any function leaves its result unchanged. So for a response of any
  status whose body can be read and is rejected by \<^verbatim>\<open>json.Unmarshal\<close>, the
  result is the error of \<^verbatim>\<open>json.Unmarshal\<close>, not a status error.
\<close>

theorem C5_PullMessage_ignores_status:
  "PullMessage urlSyntax (cli\<lparr>HttpClient := mapStatus f (HttpClient cli)\<rparr>) sub log
     = PullMessage urlSyntax cli sub log
   \<and> (\<forall>resp log' e.
         client_Get urlSyntax cli (BaseURL cli @ ''/subscriptions/'' @ sub @ ''/pull'') log
           = (Inr resp, log')
         \<and> BodyErr resp = None
         \<and> json_Unmarshal decode_PullResponse \<lparr>Message = \<lparr>Data = []\<rparr>\<rparr> (Body resp) = Inl e
         \<longrightarrow> PullMessage urlSyntax cli sub log = (Inl e, log'))"
  by (simp add: PullMessage_mapStatus) (simp add: PullMessage_def io_ReadAll_def)

theorem C5_PullMessage_ignores_status_witness:
  "PullMessage anyURL (exampleClient 500 ''Internal Server Error'') ''s'' []
     = (Inl (InvalidCharacter (CHR ''I'') ''looking for beginning of value''),
        [\<lparr>Method = ''GET'', URL = ''http://h/subscriptions/s/pull'', Header = Map.empty,
           ReqBody = None\<rparr>])"
proof -
  let ?resp = "\<lparr>StatusCode = 500, Body = ''Internal Server Error'', BodyErr = None\<rparr>"
  let ?log = "[\<lparr>Method = ''GET'', URL = ''http://h/subscriptions/s/pull'', Header = Map.empty,
           ReqBody = None\<rparr>]"
  have g: "client_Get anyURL (exampleClient 500 ''Internal Server Error'')
             (BaseURL (exampleClient 500 ''Internal Server Error'') @ ''/subscriptions/'' @ ''s'' @ ''/pull'') []
           = (Inr ?resp, ?log)"
    by (simp add: exampleClient_def http_eval)
  have u: "json_Unmarshal decode_PullResponse \<lparr>Message = \<lparr>Data = []\<rparr>\<rparr> (Body ?resp)
             = Inl (InvalidCharacter (CHR ''I'') ''looking for beginning of value'')"
    by (simp add: json_Unmarshal_def checkValid_ISE)
  from C5_PullMessage_ignores_status [where urlSyntax = anyURL
      and cli = "exampleClient 500 ''Internal Server Error''" and f = id and sub = "''s''"
      and log = "[]"]
  have "\<forall>resp log' e.
         client_Get anyURL (exampleClient 500 ''Internal Server Error'')
            (BaseURL (exampleClient 500 ''Internal Server Error'') @ ''/subscriptions/'' @ ''s'' @ ''/pull'') []
           = (Inr resp, log')
         \<and> BodyErr resp = None
         \<and> json_Unmarshal decode_PullResponse \<lparr>Message = \<lparr>Data = []\<rparr>\<rparr> (Body resp) = Inl e
         \<longrightarrow> PullMessage anyURL (exampleClient 500 ''Internal Server Error'') ''s'' [] = (Inl e, log')"
    by (rule conjunct2)
  with g u show ?thesis by force
qed






text \<open>
  C8, amended. For headers whose keys stay pairwise different in canonical form
  (\<^verbatim>\<open>textproto.CanonicalMIMEHeaderKey\<close>), and whenever the request can be built:
  the one request handed to the HTTP client is the new request with all headers set, in
  the order the map is visited, and looking any supplied key up in its header gives the
  supplied value.
\<close>

theorem C8_headers_amended:
  assumes "distinct (map (\<lambda>(k, v). CanonicalMIMEHeaderKey k) headers)"
    and "json_Marshal_Message message = Inr messageJson"
    and "http_NewRequest urlSyntax ''POST'' (BaseURL cli @ ''/topics/'' @ topicName @ ''/publish'')
           (Some messageJson) = Inr req"
  shows "snd (PublishMessage urlSyntax cli topicName message headers log)
           = log @ [setHeaders req headers]
       \<and> (\<forall>(k, v) \<in> set headers. Header_Get (Header (setHeaders req headers)) k = v)"
proof -
  have "snd (PublishMessage urlSyntax cli topicName message headers log)
          = log @ [setHeaders req headers]"
    using assms(2,3)
    by (cases "HttpClient cli log (setHeaders req headers)")
      (simp_all add: PublishMessage_def client_Do_def)
  moreover have "Header_Get (Header (setHeaders req headers)) k = v" if "(k, v) \<in> set headers" for k v
    using setHeaders_lookup [OF assms(1) that] by (simp add: Header_Get_def)
  ultimately show ?thesis by blast
qed

text \<open>
  C8. The claim as stated fails: the keys \<open>a\<close> and \<open>A\<close> are different keys of a Go
  map and have the same canonical form. In either order of visit the request that is sent
  has one value under \<open>A\<close>; the other pair is not on the request.
\<close>

theorem C8_headers_counterexample:
  "distinct (map fst [(''a'', ''1''), (''A'', ''2'')])
   \<and> snd (PublishMessage anyURL (exampleClient 201 []) ''t'' \<lparr>Data = ''x''\<rparr>
            [(''a'', ''1''), (''A'', ''2'')] [])
       = [\<lparr>Method = ''POST'', URL = ''http://h/topics/t/publish'',
            Header = [''A'' \<mapsto> [''2'']], ReqBody = Some ''{\"data\":\"x\"}''\<rparr>]
   \<and> Header_Get [''A'' \<mapsto> [''2'']] ''a'' \<noteq> ''1''
   \<and> snd (PublishMessage anyURL (exampleClient 201 []) ''t'' \<lparr>Data = ''x''\<rparr>
            [(''A'', ''2''), (''a'', ''1'')] [])
       = [\<lparr>Method = ''POST'', URL = ''http://h/topics/t/publish'',
            Header = [''A'' \<mapsto> [''1'']], ReqBody = Some ''{\"data\":\"x\"}''\<rparr>]
   \<and> Header_Get [''A'' \<mapsto> [''1'']] ''A'' \<noteq> ''2''"
  by (simp add: PublishMessage_def json_Marshal_Message_def appendString_x
      http_NewRequest_def validMethod_POST stringContainsCTLByte_def byte_def anyURL_def
      client_Do_def Header_Set_def Header_Get_def canonical_examples exampleClient_def
      fixedServer_def)

theorem C8_headers_amended_witness:
  "snd (PublishMessage anyURL (exampleClient 201 []) ''t'' \<lparr>Data = ''x''\<rparr>
          [(''x-trace'', ''7''), (''Authorization'', ''k'')] [])
     = [\<lparr>Method = ''POST'', URL = ''http://h/topics/t/publish'',
          Header = [''X-Trace'' \<mapsto> [''7''], ''Authorization'' \<mapsto> [''k'']],
          ReqBody = Some ''{\"data\":\"x\"}''\<rparr>]
   \<and> Header_Get [''X-Trace'' \<mapsto> [''7''], ''Authorization'' \<mapsto> [''k'']] ''x-trace'' = ''7''
   \<and> Header_Get [''X-Trace'' \<mapsto> [''7''], ''Authorization'' \<mapsto> [''k'']] ''Authorization'' = ''k''"
proof -
  have d: "distinct (map (\<lambda>(k, v). CanonicalMIMEHeaderKey k)
             [(''x-trace'', ''7''), (''Authorization'', ''k'')])"
    by (simp add: canonical_examples)
  have m: "json_Marshal_Message \<lparr>Data = ''x''\<rparr> = Inr ''{\"data\":\"x\"}''"
    by (simp add: json_Marshal_Message_def appendString_x)
  show ?thesis
    using C8_headers_amended [OF d m publish_request_example, of 201 "[]" "[]"]
    by (simp add: Header_Set_def canonical_examples)
qed

text \<open>
  C10, amended. For a response of any status whose body can be read and is the JSON
  value \<^verbatim>\<open>null\<close> or a JSON object none of whose keys selects the field
  \<^verbatim>\<open>message\<close> (by its name or by case folding), \<^verbatim>\<open>PullMessage\<close>
  returns the zero message (empty data) and no error. The empty object is such a body.
\<close>

theorem C10_PullMessage_empty_amended:
  assumes "client_Get urlSyntax cli (BaseURL cli @ ''/subscriptions/'' @ sub @ ''/pull'') log
             = (Inr resp, log')"
    and "BodyErr resp = None"
    and "checkValid (Body resp) = Inr v"
    and "v = JNull \<or> (\<exists>kvs. v = JObject kvs \<and> (\<forall>(k, x) \<in> set kvs. \<not> fieldMatch ''message'' k))"
  shows "PullMessage urlSyntax cli sub log = (Inr \<lparr>Data = []\<rparr>, log')"
proof -
  have "decode_PullResponse v \<lparr>Message = \<lparr>Data = []\<rparr>\<rparr> = (\<lparr>Message = \<lparr>Data = []\<rparr>\<rparr>, None)"
    using assms(4) by (auto simp: decode_PullResponse_def decode_members_nomatch)
  then show ?thesis
    using assms(1,2,3) by (simp add: PullMessage_def io_ReadAll_def json_Unmarshal_def)
qed

text \<open>
  C10. The claim as stated fails in two ways. The body \<^verbatim>\<open>[]\<close> is valid JSON
  without any \<^verbatim>\<open>message\<close> field, and \<^verbatim>\<open>PullMessage\<close> returns a type
  error for it. The body \<^verbatim>\<open>{"Message":{"data":"x"}}\<close> has no key
  \<^verbatim>\<open>message\<close>, and \<^verbatim>\<open>PullMessage\<close> returns the message with data
  \<open>x\<close>, since keys select fields without regard to case.
\<close>

theorem C10_PullMessage_empty_counterexample:
  "checkValid ''[]'' = Inr (JArray [])
   \<and> PullMessage anyURL (exampleClient 500 ''[]'') ''s'' []
       = (Inl (UnmarshalTypeError ''array'' ''pubsubclient.PullResponse''),
          [\<lparr>Method = ''GET'', URL = ''http://h/subscriptions/s/pull'', Header = Map.empty,
             ReqBody = None\<rparr>])
   \<and> checkValid ''{\"Message\":{\"data\":\"x\"}}''
       = Inr (JObject [(''Message'', JObject [(''data'', JString ''x'')])])
   \<and> PullMessage anyURL (exampleClient 500 ''{\"Message\":{\"data\":\"x\"}}'') ''s'' []
       = (Inr \<lparr>Data = ''x''\<rparr>,
          [\<lparr>Method = ''GET'', URL = ''http://h/subscriptions/s/pull'', Header = Map.empty,
             ReqBody = None\<rparr>])"
  by (simp add: PullMessage_def pull_request_example [simplified] io_ReadAll_def
      json_Unmarshal_def checkValid_examples decode_PullResponse_def decode_Message_def
      fieldMatch_examples saveError_def)

theorem C10_PullMessage_empty_amended_witness:
  "PullMessage anyURL (exampleClient 500 ''{\"error\":\"boom\"}'') ''s'' []
     = (Inr \<lparr>Data = []\<rparr>,
        [\<lparr>Method = ''GET'', URL = ''http://h/subscriptions/s/pull'', Header = Map.empty,
           ReqBody = None\<rparr>])"
  using C10_PullMessage_empty_amended [OF pull_request_example, of 500 "''{\"error\":\"boom\"}''"
      "JObject [(''error'', JString ''boom'')]"]
  by (simp add: checkValid_examples fieldMatch_examples)

text \<open>
  C9, amended. For every string \<open>s\<close> that is valid UTF-8, marshalling the message with
  data \<open>s\<close> succeeds, and unmarshalling the resulting JSON text into a fresh message
  gives a message equal to the original.
\<close>

theorem C9_roundtrip_amended:
  assumes "utf8_ValidString s"
  shows "\<exists>text. json_Marshal_Message \<lparr>Data = s\<rparr> = Inr text
           \<and> json_Unmarshal decode_Message \<lparr>Data = []\<rparr> text = Inr \<lparr>Data = s\<rparr>"
proof -
  have "json_Unmarshal decode_Message \<lparr>Data = []\<rparr> (''{\"data\":'' @ appendString s @ ''}'')
          = Inr \<lparr>Data = s\<rparr>"
    unfolding json_Unmarshal_def checkValid_marshalled_Message [OF assms]
    by (simp add: decode_Message_def fieldMatch_def saveError_def)
  then show ?thesis
    by (simp add: json_Marshal_Message_def)
qed

text \<open>
  C9. The claim as stated fails: a Go string may hold any bytes. \<^verbatim>\<open>Marshal\<close> writes
  the byte FF, which is not valid UTF-8, as the escape of U+FFFD, and decoding that text
  gives the three bytes EF BF BD, not the byte FF.
\<close>

theorem C9_roundtrip_counterexample:
  "json_Marshal_Message \<lparr>Data = [CHR 0xFF]\<rparr>
     = Inr [CHR ''{'', dquote, CHR ''d'', CHR ''a'', CHR ''t'', CHR ''a'', dquote, CHR '':'', dquote,
            backslash, CHR ''u'', CHR ''f'', CHR ''f'', CHR ''f'', CHR ''d'', dquote, CHR ''}'']
   \<and> json_Unmarshal decode_Message \<lparr>Data = []\<rparr>
         [CHR ''{'', dquote, CHR ''d'', CHR ''a'', CHR ''t'', CHR ''a'', dquote, CHR '':'', dquote,
          backslash, CHR ''u'', CHR ''f'', CHR ''f'', CHR ''f'', CHR ''d'', dquote, CHR ''}'']
       = Inr \<lparr>Data = [CHR 0xEF, CHR 0xBF, CHR 0xBD]\<rparr>
   \<and> \<lparr>Data = [CHR 0xEF, CHR 0xBF, CHR 0xBD]\<rparr> \<noteq> \<lparr>Data = [CHR 0xFF]\<rparr>"
  by (simp add: Marshal_invalid_byte Unmarshal_replacement)

theorem C9_roundtrip_amended_witness:
  "utf8_ValidString ''payload''
   \<and> json_Marshal_Message \<lparr>Data = ''payload''\<rparr> = Inr ''{\"data\":\"payload\"}''
   \<and> json_Unmarshal decode_Message \<lparr>Data = []\<rparr> ''{\"data\":\"payload\"}''
       = Inr \<lparr>Data = ''payload''\<rparr>"
proof -
  have m: "json_Marshal_Message \<lparr>Data = ''payload''\<rparr> = Inr ''{\"data\":\"payload\"}''"
    by (simp add: json_Marshal_Message_def appendString_def htmlSafeSet_def byte_def dquote_def
        backslash_def)
  from C9_roundtrip_amended [OF valid_payload] m valid_payload show ?thesis
    by simp
qed

end
